theory Spec2Isabelle
  imports Complex_Main "HOL-Library.Multiset"
begin

section \<open>Data model (src/types/quiz.ts)\<close>

text \<open>
  Strings are lists of characters; one \<^typ>\<open>char\<close> stands for one code unit of a
  JavaScript string. JavaScript numbers are modelled by \<^typ>\<open>int\<close>: question ids,
  indices and millisecond timestamps are integers in the program (fractions, NaN and
  the infinities are outside the model).
\<close>

text \<open>\<^verbatim>\<open>id: string | number\<close> of a question.\<close>

datatype QuestionId = IdStr string | IdNum int

record QuizItem =
  item_id :: QuestionId
  topic :: "string option"
  question :: string
  options :: "(string \<times> string) list"
  correctAnswer :: "string list"

record Course =
  course_id :: string
  title :: string
  quizItems :: "QuizItem list"
  topics :: "string list"

datatype QuizType = Full | Topic

record QuizConfig =
  courseId :: string
  topicId :: "string option"
  quizType :: QuizType

text \<open>
  An answer held in memory: \<^verbatim>\<open>null\<close>, an option key, an array of option keys (the
  stored form of a set) or a \<^verbatim>\<open>Set\<close> of option keys. A \<^verbatim>\<open>Set\<close> is the list of
  its elements in insertion order, without repetition.
\<close>

datatype Answer = ANull | AStr string | AArr "string list" | ASet "string list"

record SavedQuizState =
  currentIndex :: int
  userAnswers :: "Answer list"
  startTime :: "int option"
  questionIds :: "QuestionId list"
  saved_courseId :: string
  saved_topicId :: "string option"
  checkedAnswers :: "bool list option"

text \<open>
  Values as they exist at run time, where the static types are erased: what
  \<^verbatim>\<open>JSON.parse\<close> returns, extended by \<^verbatim>\<open>Set\<close> objects. An object is the list of
  its own properties in insertion order (keys pairwise different); a missing property
  (\<^verbatim>\<open>undefined\<close>) is \<^const>\<open>None\<close> of a lookup.
\<close>

datatype jsval =
    JNull
  | JBool bool
  | JNum int
  | JStr string
  | JArr "jsval list"
  | JObj "(string \<times> jsval) list"
  | JSet "jsval list"

section \<open>Number and value coercion to string\<close>

text \<open>\<^verbatim>\<open>String(n)\<close> for an integer: its decimal numeral, with a sign when negative.\<close>

fun decimal :: "nat \<Rightarrow> string" where
  "decimal n = (if n < 10 then [''0123456789'' ! n] else decimal (n div 10) @ [''0123456789'' ! (n mod 10)])"

declare decimal.simps [simp del]

definition String_of_int :: "int \<Rightarrow> string" where
  "String_of_int i = (if i < 0 then CHR ''-'' # decimal (nat (- i)) else decimal (nat i))"

fun join_comma :: "string list \<Rightarrow> string" where
  "join_comma [] = []"
| "join_comma [s] = s"
| "join_comma (s # t # ss) = s @ CHR '','' # join_comma (t # ss)"

text \<open>
  \<^verbatim>\<open>String(v)\<close> for a run-time value: an array is its elements joined by commas, with
  \<^verbatim>\<open>null\<close> elements printed as the empty string.
\<close>

fun String_js :: "jsval \<Rightarrow> string" where
  "String_js JNull = ''null''"
| "String_js (JBool b) = (if b then ''true'' else ''false'')"
| "String_js (JNum n) = String_of_int n"
| "String_js (JStr s) = s"
| "String_js (JArr xs) = join_comma (map (\<lambda>x. if x = JNull then [] else String_js x) xs)"
| "String_js (JObj kvs) = ''[object Object]''"
| "String_js (JSet xs) = ''[object Set]''"

fun String_id :: "QuestionId \<Rightarrow> string" where
  "String_id (IdStr s) = s"
| "String_id (IdNum n) = String_of_int n"

section \<open>Quiz identity (src/hooks/useQuizStateManagement.ts, getQuizStateKey)\<close>

definition QUIZ_STATE_PREFIX :: string where
  "QUIZ_STATE_PREFIX = ''quizState_''"

text \<open>The character class \<^verbatim>\<open>[a-zA-Z0-9_-]\<close>: three ranges of code units and two characters.\<close>

definition wordChar :: "char \<Rightarrow> bool" where
  "wordChar c = (let n = (of_char c :: nat) in
     (97 \<le> n \<and> n \<le> 122) \<or> (65 \<le> n \<and> n \<le> 90) \<or> (48 \<le> n \<and> n \<le> 57)
     \<or> c = CHR ''_'' \<or> c = CHR ''-'')"

text \<open>\<^verbatim>\<open>topicPart.replace(/[^a-zA-Z0-9_-]/g, '_')\<close>\<close>

definition safeTopicPart :: "string \<Rightarrow> string" where
  "safeTopicPart topicPart = map (\<lambda>c. if \<not> wordChar c then CHR ''_'' else c) topicPart"

text \<open>
  \<^verbatim>\<open>config: QuizConfig | null\<close> is an option; \<^verbatim>\<open>!config.courseId\<close> holds of the empty
  string. The function reads its argument only.
\<close>

definition getQuizStateKey :: "QuizConfig option \<Rightarrow> string option" where
  "getQuizStateKey config =
     (case config of
        None \<Rightarrow> None
      | Some c \<Rightarrow>
          if courseId c = [] then None
          else
            let topicPart = (case topicId c of None \<Rightarrow> ''full'' | Some t \<Rightarrow> t)
            in Some (QUIZ_STATE_PREFIX @ courseId c @ ''_'' @ safeTopicPart topicPart))"

section \<open>Catalog (src/data/quizData.ts)\<close>

text \<open>The cached list of courses, \<^verbatim>\<open>loadedCourses\<close>, is a parameter of every lookup.\<close>

type_synonym catalog = "Course list"

definition getCourseById :: "catalog \<Rightarrow> string option \<Rightarrow> Course option" where
  "getCourseById courses ident =
     (case ident of
        None \<Rightarrow> None
      | Some i \<Rightarrow> if i = [] then None else find (\<lambda>course. course_id course = i) courses)"

definition getQuizItems :: "catalog \<Rightarrow> string \<Rightarrow> string option \<Rightarrow> QuizItem list" where
  "getQuizItems courses cid tid =
     (case getCourseById courses (Some cid) of
        None \<Rightarrow> []
      | Some course \<Rightarrow>
          (case tid of
             None \<Rightarrow> quizItems course
           | Some t \<Rightarrow>
               if t = [] then quizItems course
               else filter (\<lambda>item. topic item = Some t) (quizItems course)))"

text \<open>
  \<^verbatim>\<open>questionId\<close> is declared \<^verbatim>\<open>string | number\<close>; the saved-state loader passes whatever
  the stored document holds, so the parameter is a run-time value.
\<close>

definition getQuestionById :: "catalog \<Rightarrow> string option \<Rightarrow> jsval \<Rightarrow> QuizItem option" where
  "getQuestionById courses cid questionId =
     (case cid of
        None \<Rightarrow> None
      | Some c \<Rightarrow>
          if c = [] then None
          else
            (case getCourseById courses (Some c) of
               None \<Rightarrow> None
             | Some course \<Rightarrow>
                 find (\<lambda>item. String_id (item_id item) = String_js questionId) (quizItems course)))"

definition id_val :: "QuestionId \<Rightarrow> jsval" where
  "id_val i = (case i of IdStr s \<Rightarrow> JStr s | IdNum n \<Rightarrow> JNum n)"

section \<open>Stored documents and the browser's key-value store\<close>

text \<open>
  \<^verbatim>\<open>localStorage\<close> maps keys to strings. A stored string either is a JSON text, which
  \<^verbatim>\<open>JSON.parse\<close> turns into the value it denotes, or it is not, and \<^verbatim>\<open>JSON.parse\<close>
  throws. The text of a JSON document is represented by the value it denotes.
\<close>

datatype stored_text = JsonText jsval | Malformed string

datatype js_error = SyntaxError | InvalidStateStructure

fun JSON_parse :: "stored_text \<Rightarrow> js_error + jsval" where
  "JSON_parse (JsonText v) = Inr v"
| "JSON_parse (Malformed s) = Inl SyntaxError"

text \<open>
  What \<^verbatim>\<open>JSON.stringify\<close> keeps of a value: a \<^verbatim>\<open>Set\<close> has no own enumerable
  properties and is written as \<^verbatim>\<open>{}\<close>.
\<close>

primrec to_json :: "jsval \<Rightarrow> jsval" where
  "to_json JNull = JNull"
| "to_json (JBool b) = JBool b"
| "to_json (JNum n) = JNum n"
| "to_json (JStr s) = JStr s"
| "to_json (JArr xs) = JArr (map to_json xs)"
| "to_json (JObj kvs) = JObj (map (map_prod id to_json) kvs)"
| "to_json (JSet xs) = JObj []"

definition JSON_stringify :: "jsval \<Rightarrow> stored_text" where
  "JSON_stringify v = JsonText (to_json v)"

subsection \<open>Run-time operations on values\<close>

fun truthy :: "jsval \<Rightarrow> bool" where
  "truthy JNull = False"
| "truthy (JBool b) = b"
| "truthy (JNum n) = (n \<noteq> 0)"
| "truthy (JStr s) = (s \<noteq> [])"
| "truthy (JArr xs) = True"
| "truthy (JObj kvs) = True"
| "truthy (JSet xs) = True"

text \<open>
  Property access \<^verbatim>\<open>v.name\<close> on a value that is neither \<^verbatim>\<open>null\<close> nor
  \<^verbatim>\<open>undefined\<close>, for the property names the program reads (none of them is an array
  index): an object has its own properties, an array and a string have \<^verbatim>\<open>length\<close>.
\<close>

fun get_prop :: "jsval \<Rightarrow> string \<Rightarrow> jsval option" where
  "get_prop (JObj kvs) name = map_of kvs name"
| "get_prop (JArr xs) name = (if name = ''length'' then Some (JNum (int (length xs))) else None)"
| "get_prop (JStr s) name = (if name = ''length'' then Some (JNum (int (length s))) else None)"
| "get_prop v name = None"

text \<open>\<^verbatim>\<open>typeof x === 'number'\<close>, \<^verbatim>\<open>Array.isArray(x)\<close> and the elements of an array.\<close>

fun isNumber :: "jsval option \<Rightarrow> bool" where
  "isNumber (Some (JNum n)) = True"
| "isNumber v = False"

fun isArray :: "jsval option \<Rightarrow> bool" where
  "isArray (Some (JArr xs)) = True"
| "isArray v = False"

fun elements :: "jsval option \<Rightarrow> jsval list" where
  "elements (Some (JArr xs)) = xs"
| "elements v = []"

text \<open>The own enumerable properties copied by \<^verbatim>\<open>{...v}\<close>.\<close>

fun spread :: "jsval \<Rightarrow> (string \<times> jsval) list" where
  "spread (JObj kvs) = kvs"
| "spread (JArr xs) = zip (map decimal [0..<length xs]) xs"
| "spread (JStr s) = zip (map decimal [0..<length s]) (map (\<lambda>c. JStr [c]) s)"
| "spread v = []"

text \<open>
  Assigning a property of an object literal: an existing key keeps its place, a new key
  goes last.
\<close>

fun set_prop :: "string \<Rightarrow> jsval \<Rightarrow> (string \<times> jsval) list \<Rightarrow> (string \<times> jsval) list" where
  "set_prop k v [] = [(k, v)]"
| "set_prop k v (p # ps) = (if fst p = k then (k, v) # ps else p # set_prop k v ps)"

text \<open>
  \<^verbatim>\<open>new Set(xs)\<close> adds the elements in order; an element is dropped when the set holds
  the same value already. Two strings, numbers, booleans or nulls are the same value when
  they are equal; the arrays and objects of a parsed document are pairwise different
  objects.
\<close>

fun primitive :: "jsval \<Rightarrow> bool" where
  "primitive (JArr xs) = False"
| "primitive (JObj kvs) = False"
| "primitive (JSet xs) = False"
| "primitive v = True"

definition Set_add :: "jsval \<Rightarrow> jsval list \<Rightarrow> jsval list" where
  "Set_add x s = (if primitive x \<and> x \<in> set s then s else s @ [x])"

definition new_Set :: "jsval list \<Rightarrow> jsval list" where
  "new_Set xs = fold Set_add xs []"

subsection \<open>The run-time representation of the typed records\<close>

fun ans_val :: "Answer \<Rightarrow> jsval" where
  "ans_val ANull = JNull"
| "ans_val (AStr s) = JStr s"
| "ans_val (AArr xs) = JArr (map JStr xs)"
| "ans_val (ASet xs) = JSet (map JStr xs)"

definition state_obj :: "SavedQuizState \<Rightarrow> jsval" where
  "state_obj st =
     JObj ([(''currentIndex'', JNum (currentIndex st)),
            (''userAnswers'', JArr (map ans_val (userAnswers st))),
            (''startTime'', (case startTime st of None \<Rightarrow> JNull | Some t \<Rightarrow> JNum t)),
            (''questionIds'', JArr (map id_val (questionIds st))),
            (''courseId'', JStr (saved_courseId st)),
            (''topicId'', (case saved_topicId st of None \<Rightarrow> JNull | Some t \<Rightarrow> JStr t))]
           @ (case checkedAnswers st of
                None \<Rightarrow> []
              | Some cs \<Rightarrow> [(''checkedAnswers'', JArr (map JBool cs))]))"

section \<open>Quiz state manager (src/hooks/useQuizStateManagement.ts)\<close>

text \<open>
  The state the hook works on: whether a \<^verbatim>\<open>window\<close> exists, the contents of
  \<^verbatim>\<open>localStorage\<close>, and the hook's in-memory index \<^verbatim>\<open>inProgressQuizzes\<close>. A write to
  \<^verbatim>\<open>localStorage\<close> is taken to succeed.
\<close>

record Manager =
  hasWindow :: bool
  localStorage :: "string \<rightharpoonup> stored_text"
  inProgressQuizzes :: "string \<rightharpoonup> SavedQuizState"

text \<open>\<^verbatim>\<open>ans instanceof Set ? Array.from(ans) : ans\<close>\<close>

fun answerForStorage :: "Answer \<Rightarrow> Answer" where
  "answerForStorage (ASet xs) = AArr xs"
| "answerForStorage ans = ans"

definition saveQuizState :: "QuizConfig \<Rightarrow> SavedQuizState option \<Rightarrow> Manager \<Rightarrow> Manager" where
  "saveQuizState config state m =
     (case getQuizStateKey (Some config) of
        None \<Rightarrow> m
      | Some key \<Rightarrow>
          if \<not> hasWindow m then m
          else
            (case state of
               None \<Rightarrow>
                 m\<lparr>localStorage := (localStorage m)(key := None),
                   inProgressQuizzes := (inProgressQuizzes m)(key := None)\<rparr>
             | Some st \<Rightarrow>
                 let answersForStorage = map answerForStorage (userAnswers st);
                     stateToSave = st\<lparr>userAnswers := answersForStorage,
                                       saved_courseId := courseId config,
                                       saved_topicId := topicId config\<rparr>
                 in m\<lparr>localStorage := (localStorage m)(key \<mapsto> JSON_stringify (state_obj stateToSave)),
                      inProgressQuizzes := (inProgressQuizzes m)(key \<mapsto> st)\<rparr>))"

text \<open>\<^verbatim>\<open>isMulti = Array.isArray(correctAnswers) && correctAnswers.length > 1\<close>\<close>

definition isMultiSelect :: "string list \<Rightarrow> bool" where
  "isMultiSelect correctAnswers = (length correctAnswers > 1)"

text \<open>The callback of \<^verbatim>\<open>parsed.userAnswers.map\<close> in \<^verbatim>\<open>loadQuizState\<close>.\<close>

definition restoreAnswer :: "catalog \<Rightarrow> QuizConfig \<Rightarrow> jsval list \<Rightarrow> jsval \<Rightarrow> nat \<Rightarrow> jsval" where
  "restoreAnswer courses config qids ans index =
     (if index \<ge> length qids then JNull
      else
        let question = getQuestionById courses (Some (courseId config)) (qids ! index);
            correctAnswers = (case question of None \<Rightarrow> [] | Some q \<Rightarrow> correctAnswer q);
            isMulti = isMultiSelect correctAnswers
        in if isMulti \<and> isArray (Some ans) then JSet (new_Set (elements (Some ans)))
           else (case ans of JStr s \<Rightarrow> JStr s | _ \<Rightarrow> JNull))"

text \<open>The validation of the core properties of a parsed document.\<close>

definition validCore :: "jsval \<Rightarrow> bool" where
  "validCore parsed =
     (truthy parsed \<and> isNumber (get_prop parsed ''currentIndex'')
      \<and> isArray (get_prop parsed ''userAnswers'') \<and> isArray (get_prop parsed ''questionIds'')
      \<and> length (elements (get_prop parsed ''questionIds'')) = length (elements (get_prop parsed ''userAnswers'')))"

text \<open>The body of the \<^verbatim>\<open>try\<close> block: \<^const>\<open>Inl\<close> is a thrown error.\<close>

definition parseSavedState :: "catalog \<Rightarrow> QuizConfig \<Rightarrow> stored_text \<Rightarrow> js_error + jsval" where
  "parseSavedState courses config serializedState =
     (case JSON_parse serializedState of
        Inl e \<Rightarrow> Inl e
      | Inr parsed \<Rightarrow>
          if validCore parsed then
            let qids = elements (get_prop parsed ''questionIds'');
                answers = elements (get_prop parsed ''userAnswers'');
                userAnswersWithSets =
                  map (\<lambda>(ans, index). restoreAnswer courses config qids ans index)
                      (zip answers [0..<length answers]);
                checkedAnswersArray =
                  (case get_prop parsed ''checkedAnswers'' of
                     None \<Rightarrow> JArr (replicate (length qids) (JBool False))
                   | Some c \<Rightarrow>
                       if truthy c \<and> get_prop c ''length'' = Some (JNum (int (length qids))) then c
                       else JArr (replicate (length qids) (JBool False)))
            in Inr (JObj (set_prop ''checkedAnswers'' checkedAnswersArray
                           (set_prop ''userAnswers'' (JArr userAnswersWithSets) (spread parsed))))
          else Inl InvalidStateStructure)"

text \<open>
  \<^verbatim>\<open>loadQuizState\<close>: the result is the loaded state or \<^verbatim>\<open>null\<close> (\<^const>\<open>None\<close>),
  together with the manager state, whose store has lost the key when the \<^verbatim>\<open>catch\<close>
  block ran.
\<close>

definition loadQuizState :: "catalog \<Rightarrow> QuizConfig \<Rightarrow> Manager \<Rightarrow> Manager \<times> jsval option" where
  "loadQuizState courses config m =
     (case getQuizStateKey (Some config) of
        None \<Rightarrow> (m, None)
      | Some key \<Rightarrow>
          if \<not> hasWindow m then (m, None)
          else
            (case localStorage m key of
               None \<Rightarrow> (m, None)
             | Some serializedState \<Rightarrow>
                 (case parseSavedState courses config serializedState of
                    Inr loadedState \<Rightarrow> (m, Some loadedState)
                  | Inl error \<Rightarrow> (m\<lparr>localStorage := (localStorage m)(key := None)\<rparr>, None))))"

section \<open>Quiz session engine (src/components/Quiz.tsx)\<close>

datatype AnswerStatus = Correct | Incorrect

text \<open>
  The component's state variables. \<^verbatim>\<open>userAnswers\<close>, \<^verbatim>\<open>startTime\<close> and
  \<^verbatim>\<open>checkedAnswers\<close> carry a prime, their names being fields of the saved state too.
  A \<^verbatim>\<open>null\<close> status is \<^const>\<open>None\<close>.
\<close>

record QuizSession =
  currentQuestions :: "QuizItem list"
  currentQuestionIndex :: int
  userAnswers' :: "Answer list"
  startTime' :: "int option"
  showFeedbackForSingleChoice :: bool
  answerStatuses :: "AnswerStatus option list"
  checkedAnswers' :: "bool list"
  isLoaded :: bool

text \<open>
  \<^verbatim>\<open>userAnswer\<close> of a result is \<^const>\<open>None\<close> when the answer list has no such index
  (\<^verbatim>\<open>undefined\<close>).
\<close>

record AnswerResult =
  questionId :: QuestionId
  userAnswer :: "Answer option"
  correctAnswer' :: "string list"
  isCorrect :: bool
  options' :: "(string \<times> string) list"

text \<open>
  The results of a completed attempt. The interface declares \<^verbatim>\<open>timestamp\<close> a number;
  the history is read back from the storage as it is, and the code provides for entries
  whose timestamp is missing or is a string. The field holds the value that is there:
  \<^const>\<open>None\<close> for a missing property (\<^verbatim>\<open>undefined\<close>), \<^term>\<open>Some (JNum t)\<close> for
  the number \<open>t\<close>, \<^term>\<open>Some (JStr s)\<close> for a string. \<^verbatim>\<open>percentage\<close> is optional in
  the interface and is computed in exact arithmetic.
\<close>

record QuizResults =
  score :: nat
  totalQuestions :: nat
  answers :: "AnswerResult list"
  duration :: int
  questionIds' :: "QuestionId list"
  courseId' :: string
  topicId' :: "string option"
  timestamp :: "jsval option"
  percentage :: "real option"

text \<open>\<^verbatim>\<open>xs[i]\<close>: \<^verbatim>\<open>undefined\<close> (\<^const>\<open>None\<close>) outside the array, also for a negative index.\<close>

definition js_nth :: "'a list \<Rightarrow> int \<Rightarrow> 'a option" where
  "js_nth xs i = (if 0 \<le> i \<and> i < int (length xs) then Some (xs ! nat i) else None)"

text \<open>
  \<^verbatim>\<open>correctAnswers.includes(v)\<close> for an answer value: only a string can be the same
  value as an element of a list of strings.
\<close>

fun includes_answer :: "string list \<Rightarrow> Answer \<Rightarrow> bool" where
  "includes_answer correctAnswers (AStr s) = (s \<in> set correctAnswers)"
| "includes_answer correctAnswers a = False"

text \<open>\<^verbatim>\<open>userAnswerForQuestion ?? ''\<close>\<close>

fun orEmptyString :: "Answer option \<Rightarrow> Answer" where
  "orEmptyString None = AStr []"
| "orEmptyString (Some ANull) = AStr []"
| "orEmptyString (Some a) = a"

text \<open>
  \<^verbatim>\<open>correctAnswers.length === answer.size && correctAnswers.every(ca => answer.has(ca))\<close>
  for an answer that is a \<^verbatim>\<open>Set\<close>, and \<^const>\<open>False\<close> for any other answer.
\<close>

fun exactSetMatch :: "string list \<Rightarrow> Answer option \<Rightarrow> bool" where
  "exactSetMatch correctAnswers (Some (ASet xs)) =
     (length correctAnswers = length xs \<and> list_all (\<lambda>ca. ca \<in> set xs) correctAnswers)"
| "exactSetMatch correctAnswers a = False"

text \<open>The final calculation of correctness in \<^verbatim>\<open>finishQuiz\<close>.\<close>

definition finalCorrect :: "string list \<Rightarrow> Answer option \<Rightarrow> bool" where
  "finalCorrect correctAnswers userAnswerForQuestion =
     (if isMultiSelect correctAnswers then exactSetMatch correctAnswers userAnswerForQuestion
      else includes_answer correctAnswers (orEmptyString userAnswerForQuestion))"

text \<open>
  The callback of \<^verbatim>\<open>currentQuestions.map\<close> in \<^verbatim>\<open>finishQuiz\<close>: the answer detail
  of the question \<open>q\<close> at \<open>index\<close>, with the flag of the final calculation.
\<close>

definition answerDetail :: "Answer list \<Rightarrow> QuizItem \<Rightarrow> nat \<Rightarrow> AnswerResult" where
  "answerDetail as q index =
     (let userAnswerForQuestion = js_nth as (int index);
          correctAnswers = correctAnswer q;
          isCorrectFlag = finalCorrect correctAnswers userAnswerForQuestion
      in \<lparr>questionId = item_id q, userAnswer = userAnswerForQuestion,
           correctAnswer' = correctAnswers, isCorrect = isCorrectFlag,
           options' = options q\<rparr>)"

text \<open>
  The run of the callback over the questions from \<open>index\<close> on: a correct answer
  increments the counter (the variable \<^verbatim>\<open>score\<close>).
\<close>

fun scoreAnswers :: "Answer list \<Rightarrow> QuizItem list \<Rightarrow> nat \<Rightarrow> nat \<Rightarrow> nat \<times> AnswerResult list" where
  "scoreAnswers as [] index counter = (counter, [])"
| "scoreAnswers as (q # qs) index counter =
     (let detail = answerDetail as q index;
          counter1 = (if isCorrect detail then counter + 1 else counter);
          (final, rest) = scoreAnswers as qs (Suc index) counter1
      in (final, detail # rest))"

text \<open>\<^verbatim>\<open>Math.round(d / 1000)\<close> for an integer \<open>d\<close>: halves are rounded up.\<close>

definition roundSeconds :: "int \<Rightarrow> int" where
  "roundSeconds d = (d + 500) div 1000"

text \<open>The record handed to \<^verbatim>\<open>onComplete\<close>; \<open>now\<close> is the second reading of the clock.\<close>

definition quizResults :: "QuizConfig \<Rightarrow> QuizSession \<Rightarrow> int \<Rightarrow> int \<Rightarrow> int \<Rightarrow> QuizResults" where
  "quizResults config s start endTime now =
     (let (final, answerDetails) = scoreAnswers (userAnswers' s) (currentQuestions s) 0 0;
          n = length (currentQuestions s)
      in \<lparr>score = final, totalQuestions = n, answers = answerDetails,
           duration = roundSeconds (endTime - start),
           questionIds' = map item_id (currentQuestions s),
           courseId' = courseId config, topicId' = topicId config,
           timestamp = Some (JNum now),
           percentage = Some (if n > 0 then (real final / real n) * 100 else 0)\<rparr>)"

text \<open>
  \<^verbatim>\<open>finishQuiz\<close>. It returns early (\<^const>\<open>None\<close>) without a start time, without
  questions or before the state is loaded. Otherwise the in-progress state is cleared and
  \<^verbatim>\<open>onComplete\<close> runs, in this order: the callback is applied to the results and to the
  manager state it finds.
\<close>

definition finishQuiz ::
  "(QuizResults \<Rightarrow> Manager \<Rightarrow> 'r) \<Rightarrow> QuizConfig \<Rightarrow> QuizSession \<Rightarrow> int \<Rightarrow> int \<Rightarrow> Manager \<Rightarrow> 'r option" where
  "finishQuiz onComplete config s endTime now m =
     (case startTime' s of
        None \<Rightarrow> None
      | Some start \<Rightarrow>
          if currentQuestions s = [] \<or> \<not> isLoaded s then None
          else
            let results = quizResults config s start endTime now;
                m1 = (if getQuizStateKey (Some config) \<noteq> None then saveQuizState config None m else m)
            in Some (onComplete results m1))"

subsection \<open>Loading: resume or initialize\<close>

text \<open>\<^verbatim>\<open>Array.isArray(ans)\<close> and \<^verbatim>\<open>new Set(ans)\<close> for an answer of the saved state.\<close>

definition Set_of_strings :: "string list \<Rightarrow> string list" where
  "Set_of_strings xs = fold (\<lambda>x s. if x \<in> set s then s else s @ [x]) xs []"

definition restoredAnswers :: "QuizItem list \<Rightarrow> Answer list \<Rightarrow> Answer list" where
  "restoredAnswers loadedQuestions saved =
     map (\<lambda>(ans, index).
            case js_nth loadedQuestions (int index) of
              None \<Rightarrow> ANull
            | Some q \<Rightarrow>
                (case ans of
                   AArr xs \<Rightarrow> if isMultiSelect (correctAnswer q) then ASet (Set_of_strings xs) else ans
                 | _ \<Rightarrow> ans))
         (zip saved [0..<length saved])"

definition restoredStatuses :: "QuizItem list \<Rightarrow> Answer list \<Rightarrow> AnswerStatus option list" where
  "restoredStatuses loadedQuestions answersWithSets =
     map (\<lambda>(userAns, idx).
            case js_nth loadedQuestions (int idx) of
              None \<Rightarrow> None
            | Some q \<Rightarrow>
                if isMultiSelect (correctAnswer q) \<or> userAns = ANull then None
                else Some (if includes_answer (correctAnswer q) userAns then Correct else Incorrect))
         (zip answersWithSets [0..<length answersWithSets])"

text \<open>The branch of the load effect that restores a saved state; \<open>now\<close> is the clock.\<close>

definition resumeQuiz :: "catalog \<Rightarrow> QuizConfig \<Rightarrow> SavedQuizState \<Rightarrow> int \<Rightarrow> QuizSession" where
  "resumeQuiz courses config savedState now =
     (let loadedQuestions =
            List.map_filter (\<lambda>i. getQuestionById courses (Some (courseId config)) (id_val i))
              (questionIds savedState);
          answersWithSets = restoredAnswers loadedQuestions (userAnswers savedState);
          n = length loadedQuestions;
          loadedCheckedAnswers =
            (case checkedAnswers savedState of
               None \<Rightarrow> replicate n False
             | Some cs \<Rightarrow> if length cs = n then cs else replicate n False);
          loadedStatuses = restoredStatuses loadedQuestions answersWithSets;
          loadedIndex = (if currentIndex savedState < int n then currentIndex savedState else 0)
      in \<lparr>currentQuestions = loadedQuestions,
           currentQuestionIndex = loadedIndex,
           userAnswers' = answersWithSets,
           startTime' = Some (case startTime savedState of None \<Rightarrow> now | Some t \<Rightarrow> t),
           showFeedbackForSingleChoice =
             (loadedIndex < int (length loadedStatuses)
              \<and> js_nth loadedStatuses loadedIndex \<noteq> Some None
              \<and> loadedIndex < int n
              \<and> \<not> isMultiSelect (case js_nth loadedQuestions loadedIndex of
                                     None \<Rightarrow> [] | Some q \<Rightarrow> correctAnswer q)),
           answerStatuses = loadedStatuses,
           checkedAnswers' = loadedCheckedAnswers,
           isLoaded = True\<rparr>)"

text \<open>
  The branch that starts a new quiz orders the questions by
  \<^verbatim>\<open>[...questions].sort(() => 0.5 - Math.random())\<close>: the platform's sort of a copy, under
  a comparator that ignores its arguments and answers by a random number.
  \<open>draws\<close> lists the results of the calls of \<^verbatim>\<open>Math.random()\<close> that the comparator makes
  during the sort, in their order, so the comparator's successive results are
  \<^verbatim>\<open>0.5 - r\<close> for the draws \<open>r\<close>. With a comparator that is not consistent the language
  leaves the order to the implementation: \<open>engineSort\<close> stands for the platform's sort,
  given the successive results of the comparator and the array.
\<close>

definition randomComparator :: "real \<Rightarrow> real" where
  "randomComparator r = 1 / 2 - r"

definition initializeQuiz ::
  "(real list \<Rightarrow> QuizItem list \<Rightarrow> QuizItem list) \<Rightarrow> real list \<Rightarrow> catalog \<Rightarrow> QuizConfig \<Rightarrow> int
     \<Rightarrow> QuizSession" where
  "initializeQuiz engineSort draws courses config now =
     (let questions = getQuizItems courses (courseId config) (topicId config);
          shuffledQuestions = engineSort (map randomComparator draws) questions;
          questionsToUse = shuffledQuestions;
          numQuestions = length questionsToUse
      in \<lparr>currentQuestions = questionsToUse,
           currentQuestionIndex = 0,
           userAnswers' = replicate numQuestions ANull,
           startTime' = Some now,
           showFeedbackForSingleChoice = False,
           answerStatuses = replicate numQuestions None,
           checkedAnswers' = replicate numQuestions False,
           isLoaded = True\<rparr>)"

text \<open>
  The load effect; \<open>savedState\<close> is what \<^verbatim>\<open>loadQuizState\<close> returned, at its declared type
  \<^verbatim>\<open>SavedQuizState | null\<close>.
\<close>

definition loadEffect ::
  "(real list \<Rightarrow> QuizItem list \<Rightarrow> QuizItem list) \<Rightarrow> real list \<Rightarrow> catalog \<Rightarrow> QuizConfig
     \<Rightarrow> SavedQuizState option \<Rightarrow> int \<Rightarrow> QuizSession \<Rightarrow> QuizSession" where
  "loadEffect engineSort draws courses config savedState now s =
     (if getQuizStateKey (Some config) = None \<or> courseId config = []
      then s\<lparr>isLoaded := True, currentQuestions := []\<rparr>
      else
        (case savedState of
           None \<Rightarrow> initializeQuiz engineSort draws courses config now
         | Some st \<Rightarrow>
             if length (questionIds st) > 0 then resumeQuiz courses config st now
             else initializeQuiz engineSort draws courses config now))"

section \<open>Shuffle utility (Fisher-Yates)\<close>

text \<open>
  \<open>rnd\<close> lists the results of the successive calls of \<^verbatim>\<open>Math.random()\<close>; \<open>n\<close> counts
  the calls made so far. The loop runs \<open>currentIndex\<close> down to zero.
\<close>

fun shuffleLoop :: "(nat \<Rightarrow> real) \<Rightarrow> nat \<Rightarrow> nat \<Rightarrow> 'a list \<Rightarrow> 'a list" where
  "shuffleLoop rnd n 0 result = result"
| "shuffleLoop rnd n (Suc k) result =
     (let randomIndex = nat \<lfloor>rnd n * real (Suc k)\<rfloor>;
          currentIndex = k
      in shuffleLoop rnd (Suc n) currentIndex
           (result[currentIndex := result ! randomIndex, randomIndex := result ! currentIndex]))"

definition shuffleArray :: "(nat \<Rightarrow> real) \<Rightarrow> 'a list \<Rightarrow> 'a list" where
  "shuffleArray rnd array = shuffleLoop rnd 0 (length array) array"

section \<open>Completed-attempt history (src/App.tsx, handleAddResult)\<close>

text \<open>
  An operand \<^verbatim>\<open>r.timestamp ?? 0\<close> of the comparator's subtraction, when it is a number as
  it stands: the timestamp itself when it is a number, and 0 in place of \<^verbatim>\<open>undefined\<close>
  or \<^verbatim>\<open>null\<close>. A value of any other type (a string, say) is not replaced by \<^verbatim>\<open>??\<close>: the
  subtraction coerces it, and the operand is not given here (\<^const>\<open>None\<close>).
\<close>

fun numberOperand :: "jsval option \<Rightarrow> int option" where
  "numberOperand None = Some 0"
| "numberOperand (Some JNull) = Some 0"
| "numberOperand (Some (JNum t)) = Some t"
| "numberOperand (Some v) = None"

text \<open>
  \<^verbatim>\<open>xs.sort((a, b) => (a.timestamp ?? 0) - (b.timestamp ?? 0))\<close>. When every operand is a
  number as it stands, the comparator is the difference of two integers, a consistent
  comparator, and the platform's sort, which is stable, gives the outcome of a stable
  sort by that key, of which insertion sort is one. When some timestamp is of another
  type, the subtraction coerces it, to \<^verbatim>\<open>NaN\<close> for a string that is no numeral, and the
  comparator need not be consistent: \<open>coercedSort\<close> stands for the outcome of the
  platform's sort in that case.
\<close>

definition sortByTimestamp ::
  "(QuizResults list \<Rightarrow> QuizResults list) \<Rightarrow> QuizResults list \<Rightarrow> QuizResults list" where
  "sortByTimestamp coercedSort xs =
     (if list_all (\<lambda>r. numberOperand (timestamp r) \<noteq> None) xs
      then sort_key (\<lambda>r. the (numberOperand (timestamp r))) xs
      else coercedSort xs)"

text \<open>
  \<^verbatim>\<open>handleAddResult\<close>, the update of the history; \<open>now\<close> is the clock. The result to add
  keeps its timestamp when \<^verbatim>\<open>typeof newResult.timestamp === 'number'\<close> and takes the clock
  otherwise; \<^verbatim>\<open>r.timestamp !== resultToAdd.timestamp\<close> compares with a number, which only
  the same number equals.
\<close>

definition handleAddResult ::
  "(QuizResults list \<Rightarrow> QuizResults list) \<Rightarrow> int \<Rightarrow> QuizResults \<Rightarrow> QuizResults list
     \<Rightarrow> QuizResults list" where
  "handleAddResult coercedSort now newResult prevHistory =
     (let resultToAdd =
            newResult\<lparr>timestamp :=
              Some (JNum (case timestamp newResult of Some (JNum t) \<Rightarrow> t | _ \<Rightarrow> now))\<rparr>;
          otherResults = filter (\<lambda>r. timestamp r \<noteq> timestamp resultToAdd) prevHistory;
          updatedResults = sortByTimestamp coercedSort (otherResults @ [resultToAdd])
      in drop (length updatedResults - 50) updatedResults)"

section \<open>Notions of the specification\<close>

text \<open>The characters of \<^verbatim>\<open>[A-Za-z0-9_-]\<close>, written out.\<close>

definition keyAlphabet :: string where
  "keyAlphabet = ''abcdefghijklmnopqrstuvwxyzABCDEFGHIJKLMNOPQRSTUVWXYZ0123456789_-''"

text \<open>
  Structural validity of a stored document: an object whose \<^verbatim>\<open>currentIndex\<close> is a
  number and whose \<^verbatim>\<open>userAnswers\<close> and \<^verbatim>\<open>questionIds\<close> are arrays of equal length.
\<close>

definition structurallyValid :: "jsval \<Rightarrow> bool" where
  "structurallyValid v =
     (\<exists>kvs i as qs. v = JObj kvs
        \<and> map_of kvs ''currentIndex'' = Some (JNum i)
        \<and> map_of kvs ''userAnswers'' = Some (JArr as)
        \<and> map_of kvs ''questionIds'' = Some (JArr qs)
        \<and> length as = length qs)"

text \<open>
  A well-formed saved state: as many answers as question ids, and every \<^verbatim>\<open>Set\<close> answer
  without repeated elements.
\<close>

definition wellFormedState :: "SavedQuizState \<Rightarrow> bool" where
  "wellFormedState st =
     (length (userAnswers st) = length (questionIds st)
      \<and> list_all (\<lambda>a. case a of ASet xs \<Rightarrow> distinct xs | _ \<Rightarrow> True) (userAnswers st))"

text \<open>The question of a persisted id, resolved from the catalog, is multi-select.\<close>

definition multiSelectQuestion :: "catalog \<Rightarrow> QuizConfig \<Rightarrow> QuestionId \<Rightarrow> bool" where
  "multiSelectQuestion courses config qid =
     (case getQuestionById courses (Some (courseId config)) (id_val qid) of
        None \<Rightarrow> False
      | Some q \<Rightarrow> length (correctAnswer q) > 1)"

text \<open>
  The answer expected back after a save and a load: an answer stored as an array (a set
  or an array in memory) comes back as a set when the question is multi-select; any
  other answer comes back as the string it is, or as \<^verbatim>\<open>null\<close>.
\<close>

definition expectedAnswer :: "bool \<Rightarrow> Answer \<Rightarrow> Answer" where
  "expectedAnswer multi a =
     (case a of
        ASet xs \<Rightarrow> if multi then ASet xs else ANull
      | AArr xs \<Rightarrow> if multi then ASet (Set_of_strings xs) else ANull
      | AStr s \<Rightarrow> AStr s
      | ANull \<Rightarrow> ANull)"

text \<open>The checked flags, replaced by an all-false list when absent or of another length.\<close>

definition backfilledChecked :: "SavedQuizState \<Rightarrow> bool list" where
  "backfilledChecked st =
     (case checkedAnswers st of
        None \<Rightarrow> replicate (length (questionIds st)) False
      | Some cs \<Rightarrow>
          if length cs = length (questionIds st) then cs
          else replicate (length (questionIds st)) False)"

text \<open>The saved state with its answers and checked flags as expected after a reload.\<close>

definition reloadedState :: "catalog \<Rightarrow> QuizConfig \<Rightarrow> SavedQuizState \<Rightarrow> SavedQuizState" where
  "reloadedState courses config st =
     st\<lparr>userAnswers := map (\<lambda>(a, qid). expectedAnswer (multiSelectQuestion courses config qid) a)
                           (zip (userAnswers st) (questionIds st)),
        checkedAnswers := Some (backfilledChecked st)\<rparr>"

text \<open>A timestamp that is a number, or is missing (\<^verbatim>\<open>undefined\<close> or \<^verbatim>\<open>null\<close>).\<close>

fun numberOrMissing :: "jsval option \<Rightarrow> bool" where
  "numberOrMissing None = True"
| "numberOrMissing (Some JNull) = True"
| "numberOrMissing (Some (JNum t)) = True"
| "numberOrMissing (Some v) = False"

text \<open>A history all of whose timestamps are numbers or missing.\<close>

definition numericHistory :: "QuizResults list \<Rightarrow> bool" where
  "numericHistory h = list_all (\<lambda>x. numberOrMissing (timestamp x)) h"

text \<open>
  The result \<open>x\<close> is not newer than the result \<open>y\<close>: both timestamps are numbers or
  missing, a missing one counting as 0, and the one of \<open>x\<close> is at most the one of \<open>y\<close>.
\<close>

definition notNewer :: "QuizResults \<Rightarrow> QuizResults \<Rightarrow> bool" where
  "notNewer x y =
     (\<exists>s t. numberOperand (timestamp x) = Some s \<and> numberOperand (timestamp y) = Some t \<and> s \<le> t)"

text \<open>
  The list of random numbers \<open>draws\<close> has the sign pattern \<open>bs\<close>: none of them is one half,
  and the \<open>i\<close>-th is below one half, where the comparator's result is positive, exactly
  when the \<open>i\<close>-th element of \<open>bs\<close> is true.
\<close>

definition signPattern :: "bool list \<Rightarrow> real list \<Rightarrow> bool" where
  "signPattern bs draws = list_all2 (\<lambda>b r. r \<noteq> 1 / 2 \<and> b = (r < 1 / 2)) bs draws"

section \<open>Example data\<close>

text \<open>
  A course \<^verbatim>\<open>demo\<close> with three questions: topic \<^verbatim>\<open>t1\<close> holds question 1
  (single-select, answer A) and question 2 (multi-select, answers A and B).
\<close>

definition demoQ1 :: QuizItem where
  "demoQ1 = \<lparr>item_id = IdNum 1, topic = Some ''t1'', question = ''first'',
             options = [(''A'', ''a''), (''B'', ''b'')], correctAnswer = [''A'']\<rparr>"

definition demoQ2 :: QuizItem where
  "demoQ2 = \<lparr>item_id = IdNum 2, topic = Some ''t1'', question = ''second'',
             options = [(''A'', ''a''), (''B'', ''b''), (''C'', ''c'')],
             correctAnswer = [''A'', ''B'']\<rparr>"

definition demoQ3 :: QuizItem where
  "demoQ3 = \<lparr>item_id = IdStr ''q3'', topic = Some ''t2'', question = ''third'',
             options = [(''A'', ''a''), (''B'', ''b'')], correctAnswer = [''B'']\<rparr>"

definition demoCourse :: Course where
  "demoCourse = \<lparr>course_id = ''demo'', title = ''Demo'',
                 quizItems = [demoQ1, demoQ2, demoQ3], topics = [''t1'', ''t2'']\<rparr>"

definition demoCatalog :: catalog where
  "demoCatalog = [demoCourse]"

definition demoConfig :: QuizConfig where
  "demoConfig = \<lparr>courseId = ''demo'', topicId = Some ''t1'', quizType = Topic\<rparr>"

text \<open>A store whose entry for the demo quiz is not JSON.\<close>

definition corruptManager :: Manager where
  "corruptManager = \<lparr>hasWindow = True,
      localStorage = [''quizState_demo_t1'' \<mapsto> Malformed ''{not json''],
      inProgressQuizzes = Map.empty\<rparr>"

text \<open>A store whose entry is a JSON document with one answer and no question id.\<close>

definition mismatchManager :: Manager where
  "mismatchManager = \<lparr>hasWindow = True,
      localStorage = [''quizState_demo_t1'' \<mapsto>
        JsonText (JObj [(''currentIndex'', JNum 0), (''userAnswers'', JArr [JStr ''A'']),
                        (''questionIds'', JArr [])])],
      inProgressQuizzes = Map.empty\<rparr>"

text \<open>
  A saved state of the demo quiz, a session that has answered both questions, and a
  manager whose store holds the saved state.
\<close>

definition demoSaved :: SavedQuizState where
  "demoSaved = \<lparr>currentIndex = 1, userAnswers = [AStr ''A'', AArr [''A'', ''B'']],
                startTime = Some 1000, questionIds = [IdNum 1, IdNum 2],
                saved_courseId = ''demo'', saved_topicId = Some ''t1'',
                checkedAnswers = Some [False, True]\<rparr>"

definition demoSession :: QuizSession where
  "demoSession = \<lparr>currentQuestions = [demoQ1, demoQ2], currentQuestionIndex = 1,
                  userAnswers' = [AStr ''A'', ASet [''A'', ''B'']], startTime' = Some 1000,
                  showFeedbackForSingleChoice = False,
                  answerStatuses = [Some Correct, Some Correct],
                  checkedAnswers' = [False, True], isLoaded = True\<rparr>"

definition demoManager :: Manager where
  "demoManager = \<lparr>hasWindow = True,
      localStorage = [''quizState_demo_t1'' \<mapsto> JSON_stringify (state_obj demoSaved)],
      inProgressQuizzes = [''quizState_demo_t1'' \<mapsto> demoSaved]\<rparr>"

text \<open>A question whose only correct key is the empty string, left unanswered.\<close>

definition emptyKeyQ :: QuizItem where
  "emptyKeyQ = \<lparr>item_id = IdNum 7, topic = None, question = ''empty key'',
                options = [([], ''nothing''), (''A'', ''a'')], correctAnswer = [[]]\<rparr>"

definition emptyKeySession :: QuizSession where
  "emptyKeySession = \<lparr>currentQuestions = [emptyKeyQ], currentQuestionIndex = 0,
                  userAnswers' = [ANull], startTime' = Some 0,
                  showFeedbackForSingleChoice = False, answerStatuses = [None],
                  checkedAnswers' = [False], isLoaded = True\<rparr>"

text \<open>A saved state whose multi-select question 2 was answered correctly and checked.\<close>

definition checkedSaved :: SavedQuizState where
  "checkedSaved = \<lparr>currentIndex = 1, userAnswers = [AStr ''A'', ASet [''A'', ''B'']],
                startTime = Some 1000, questionIds = [IdNum 1, IdNum 2],
                saved_courseId = ''demo'', saved_topicId = Some ''t1'',
                checkedAnswers = Some [True, True]\<rparr>"

text \<open>The saved state of the demo quiz, labelled with another course.\<close>

definition otherSaved :: SavedQuizState where
  "otherSaved = demoSaved\<lparr>saved_courseId := ''other''\<rparr>"

text \<open>
  A completed attempt of the demo quiz, and fifty-five attempts with the timestamps
  1000, 1001, ... in the order of their completion.
\<close>

definition demoResult :: QuizResults where
  "demoResult = \<lparr>score = 2, totalQuestions = 2, answers = [], duration = 60,
                 questionIds' = [IdNum 1, IdNum 2], courseId' = ''demo'', topicId' = Some ''t1'',
                 timestamp = Some (JNum 1000), percentage = Some 100\<rparr>"

definition demoResults :: "QuizResults list" where
  "demoResults = map (\<lambda>i. demoResult\<lparr>timestamp := Some (JNum (1000 + int i))\<rparr>) [0..<55]"

text \<open>The whole demo course as a quiz: its three questions.\<close>

definition fullConfig :: QuizConfig where
  "fullConfig = \<lparr>courseId = ''demo'', topicId = None, quizType = Full\<rparr>"

text \<open>
  A sort for the examples: insertion sort. Each element is inserted into the sorted part
  from its front, one call of the comparator per element passed; a positive result moves
  the element on. \<open>vs\<close> lists the results of the calls still to come.
\<close>

fun insertByResults :: "bool list \<Rightarrow> 'a \<Rightarrow> 'a list \<Rightarrow> 'a list \<times> bool list" where
  "insertByResults vs x [] = ([x], vs)"
| "insertByResults [] x (y # ys) = (x # y # ys, [])"
| "insertByResults (v # vs) x (y # ys) =
     (if v then (let (zs, rest) = insertByResults vs x ys in (y # zs, rest))
      else (x # y # ys, vs))"

fun insertionLoop :: "bool list \<Rightarrow> 'a list \<Rightarrow> 'a list \<Rightarrow> 'a list" where
  "insertionLoop vs sortedPart [] = sortedPart"
| "insertionLoop vs sortedPart (x # xs) =
     (let (sortedPart1, rest) = insertByResults vs x sortedPart
      in insertionLoop rest sortedPart1 xs)"

definition insertionEngine :: "real list \<Rightarrow> 'a list \<Rightarrow> 'a list" where
  "insertionEngine results xs = insertionLoop (map (\<lambda>v. 0 < v) results) [] xs"

text \<open>
  A saved state whose first question id is no longer in the catalog: the answer B belongs
  to the missing question \<^verbatim>\<open>gone\<close>, the answer A to question 1.
\<close>

definition droppedSaved :: SavedQuizState where
  "droppedSaved = \<lparr>currentIndex = 0, userAnswers = [AStr ''B'', AStr ''A''],
                startTime = Some 1000, questionIds = [IdStr ''gone'', IdNum 1],
                saved_courseId = ''demo'', saved_topicId = Some ''t1'',
                checkedAnswers = Some [False, False]\<rparr>"

section \<open>Verified properties\<close>

subsection \<open>Quiz identity\<close>

lemma wordChar_keyAlphabet: "wordChar c \<longleftrightarrow> c \<in> set keyAlphabet"
proof (cases c)
  case (Char x1 x2 x3 x4 x5 x6 x7 x8)
  show ?thesis unfolding Char wordChar_def keyAlphabet_def Let_def
    by (cases x1; cases x2; cases x3; cases x4; cases x5; cases x6; cases x7; cases x8; simp)
qed

lemma safeTopicPart_keyAlphabet:
  "safeTopicPart t = map (\<lambda>ch. if ch \<in> set keyAlphabet then ch else CHR ''_'') t"
  unfolding safeTopicPart_def by (rule map_cong) (simp_all add: wordChar_keyAlphabet)

lemma demoConfig_key: "getQuizStateKey (Some demoConfig) = Some ''quizState_demo_t1''"
  by (simp add: getQuizStateKey_def demoConfig_def QUIZ_STATE_PREFIX_def safeTopicPart_def
        wordChar_def)

text \<open>
  C9. The identity resolver returns \<^verbatim>\<open>null\<close> exactly when the config is \<^verbatim>\<open>null\<close> or
  its course id is empty. Otherwise it returns \<^verbatim>\<open>quizState_\<close>, the course id, an
  underscore and the topic id (\<^verbatim>\<open>full\<close> when the topic id is \<^verbatim>\<open>null\<close>) with every
  character outside \<^verbatim>\<open>[A-Za-z0-9_-]\<close> replaced by an underscore. Two configs with the same
  course id and topic id get the same identity. The result depends on the config alone.
\<close>

theorem getQuizStateKey_identity:
  "(getQuizStateKey config = None) = (case config of None \<Rightarrow> True | Some c \<Rightarrow> courseId c = [])
   \<and> (\<forall>c. courseId c \<noteq> [] \<longrightarrow>
          getQuizStateKey (Some c) =
            Some (''quizState_'' @ courseId c @ ''_''
                  @ map (\<lambda>ch. if ch \<in> set keyAlphabet then ch else CHR ''_'')
                      (case topicId c of None \<Rightarrow> ''full'' | Some t \<Rightarrow> t)))
   \<and> (\<forall>c1 c2. courseId c1 = courseId c2 \<and> topicId c1 = topicId c2 \<longrightarrow>
          getQuizStateKey (Some c1) = getQuizStateKey (Some c2))"
  by (simp add: getQuizStateKey_def QUIZ_STATE_PREFIX_def safeTopicPart_keyAlphabet
        del: set_simps split: option.split)

theorem getQuizStateKey_identity_witness:
  "getQuizStateKey (Some \<lparr>courseId = ''gcp-ace'', topicId = Some ''IAM & Roles'', quizType = Topic\<rparr>)
     = Some ''quizState_gcp-ace_IAM___Roles''
   \<and> getQuizStateKey (Some \<lparr>courseId = ''gcp-ace'', topicId = None, quizType = Full\<rparr>)
     = Some ''quizState_gcp-ace_full''
   \<and> getQuizStateKey (Some \<lparr>courseId = ''gcp-ace'', topicId = None, quizType = Full\<rparr>)
     = getQuizStateKey (Some \<lparr>courseId = ''gcp-ace'', topicId = None, quizType = Topic\<rparr>)
   \<and> getQuizStateKey (Some \<lparr>courseId = [], topicId = None, quizType = Full\<rparr>) = None"
  using getQuizStateKey_identity [of "Some \<lparr>courseId = [], topicId = None, quizType = Full\<rparr>"]
  by (simp add: keyAlphabet_def)

subsection \<open>Catalog lookup\<close>

lemma getQuestionById_course:
  assumes "c \<noteq> []" and "find (\<lambda>course. course_id course = c) courses = Some course"
  shows "getQuestionById courses (Some c) qid =
           find (\<lambda>item. String_id (item_id item) = String_js qid) (quizItems course)"
  using assms by (simp add: getQuestionById_def getCourseById_def)

lemma String_of_int_digit: "String_of_int 1 = ''1''" "String_of_int 2 = ''2''"
  by (simp_all add: String_of_int_def decimal.simps)

text \<open>
  C10. The question lookup compares ids after coercion to string. Without a course id, with
  an empty one or for an unknown course it returns \<^verbatim>\<open>undefined\<close>. For a course of the
  catalog (the first with that id) it returns \<^verbatim>\<open>undefined\<close> exactly when no item's id
  has the string form of the requested id, and otherwise the first item that has it. A
  numeric id and its decimal string resolve to the same question.
\<close>

theorem getQuestionById_first_match:
  "getQuestionById courses None qid = None
   \<and> getQuestionById courses (Some []) qid = None
   \<and> (find (\<lambda>course. course_id course = c) courses = None \<longrightarrow>
         getQuestionById courses (Some c) qid = None)
   \<and> (c \<noteq> [] \<and> find (\<lambda>course. course_id course = c) courses = Some course \<longrightarrow>
         (getQuestionById courses (Some c) qid = None \<longleftrightarrow>
            (\<forall>item \<in> set (quizItems course). String_id (item_id item) \<noteq> String_js qid))
         \<and> (\<forall>q. getQuestionById courses (Some c) qid = Some q \<longleftrightarrow>
               (\<exists>i < length (quizItems course).
                  q = quizItems course ! i \<and> String_id (item_id q) = String_js qid
                  \<and> (\<forall>j < i. String_id (item_id (quizItems course ! j)) \<noteq> String_js qid))))
   \<and> getQuestionById courses cid (JNum n) = getQuestionById courses cid (JStr (String_of_int n))
   \<and> String_id (IdNum n) = String_js (JStr (String_of_int n))"
proof -
  have 1: "getQuestionById courses None qid = None"
    and 2: "getQuestionById courses (Some []) qid = None"
    by (simp_all add: getQuestionById_def)
  have 3: "find (\<lambda>course. course_id course = c) courses = None \<longrightarrow>
             getQuestionById courses (Some c) qid = None"
    by (simp add: getQuestionById_def getCourseById_def)
  have 4: "c \<noteq> [] \<and> find (\<lambda>course. course_id course = c) courses = Some course \<longrightarrow>
         (getQuestionById courses (Some c) qid = None \<longleftrightarrow>
            (\<forall>item \<in> set (quizItems course). String_id (item_id item) \<noteq> String_js qid))
         \<and> (\<forall>q. getQuestionById courses (Some c) qid = Some q \<longleftrightarrow>
               (\<exists>i < length (quizItems course).
                  q = quizItems course ! i \<and> String_id (item_id q) = String_js qid
                  \<and> (\<forall>j < i. String_id (item_id (quizItems course ! j)) \<noteq> String_js qid)))"
  proof (intro impI, elim conjE)
    assume a: "c \<noteq> []" "find (\<lambda>course. course_id course = c) courses = Some course"
    show "(getQuestionById courses (Some c) qid = None \<longleftrightarrow>
            (\<forall>item \<in> set (quizItems course). String_id (item_id item) \<noteq> String_js qid))
         \<and> (\<forall>q. getQuestionById courses (Some c) qid = Some q \<longleftrightarrow>
               (\<exists>i < length (quizItems course).
                  q = quizItems course ! i \<and> String_id (item_id q) = String_js qid
                  \<and> (\<forall>j < i. String_id (item_id (quizItems course ! j)) \<noteq> String_js qid)))"
      unfolding getQuestionById_course [OF a] find_None_iff find_Some_iff by auto
  qed
  have 5: "getQuestionById courses cid (JNum n) = getQuestionById courses cid (JStr (String_of_int n))"
    by (simp add: getQuestionById_def split: option.splits if_splits)
  have 6: "String_id (IdNum n) = String_js (JStr (String_of_int n))" by simp
  from 1 2 3 4 5 6 show ?thesis by blast
qed

theorem getQuestionById_first_match_witness:
  "getQuestionById demoCatalog (Some ''demo'') (JStr ''2'') = Some demoQ2
   \<and> getQuestionById demoCatalog (Some ''demo'') (JNum 2) = Some demoQ2
   \<and> getQuestionById demoCatalog (Some ''nope'') (JNum 2) = None"
proof -
  have f: "''demo'' \<noteq> [] \<and> find (\<lambda>course. course_id course = ''demo'') demoCatalog = Some demoCourse"
    by (simp add: demoCatalog_def demoCourse_def)
  have g: "find (\<lambda>course. course_id course = ''nope'') demoCatalog = None"
    by (simp add: demoCatalog_def demoCourse_def)
  have ids: "String_id (item_id demoQ1) \<noteq> ''2''" "String_id (item_id demoQ2) = ''2''"
    by (simp_all add: demoQ1_def demoQ2_def String_of_int_digit)
  have "getQuestionById demoCatalog (Some ''demo'') (JStr ''2'') = Some demoQ2"
    using getQuestionById_first_match [of demoCatalog "JStr ''2''" "''demo''" demoCourse] f ids
    by (auto intro!: exI [of _ 1] simp: less_Suc_eq demoCourse_def)
  moreover have "getQuestionById demoCatalog (Some ''demo'') (JNum 2)
      = getQuestionById demoCatalog (Some ''demo'') (JStr ''2'')"
    using getQuestionById_first_match [of demoCatalog "JStr ''2''" "''demo''" demoCourse "Some ''demo''" 2]
    by (simp add: String_of_int_digit)
  moreover have "getQuestionById demoCatalog (Some ''nope'') (JNum 2) = None"
    using getQuestionById_first_match [of demoCatalog "JNum 2" "''nope''"] g by blast
  ultimately show ?thesis by simp
qed

subsection \<open>Loading a corrupted entry\<close>

lemma isNumber_iff: "isNumber v \<longleftrightarrow> (\<exists>n. v = Some (JNum n))"
  by (cases v rule: isNumber.cases) simp_all

lemma isArray_iff: "isArray v \<longleftrightarrow> (\<exists>xs. v = Some (JArr xs))"
  by (cases v rule: isArray.cases) simp_all

lemma validCore_structurallyValid: "validCore v = structurallyValid v"
proof (cases v)
  case (JObj kvs)
  then show ?thesis
    by (auto simp: validCore_def structurallyValid_def isNumber_iff isArray_iff)
qed (simp_all add: validCore_def structurallyValid_def)

lemma parseSavedState_invalid:
  "(\<exists>s. txt = Malformed s) \<or> (\<exists>v. txt = JsonText v \<and> \<not> structurallyValid v)
    \<Longrightarrow> \<exists>e. parseSavedState courses config txt = Inl e"
  by (auto simp: parseSavedState_def validCore_structurallyValid)

text \<open>
  C7. When the value stored under the key of a config is not JSON, or is a JSON document
  that fails the structural validation, \<^verbatim>\<open>loadQuizState\<close> returns \<^verbatim>\<open>null\<close> and the key
  is removed from the store. The error raised inside is caught: the call returns a value.
\<close>

theorem loadQuizState_self_heal:
  assumes "getQuizStateKey (Some config) = Some key"
    and "hasWindow m"
    and "localStorage m key = Some txt"
    and "(\<exists>s. txt = Malformed s) \<or> (\<exists>v. txt = JsonText v \<and> \<not> structurallyValid v)"
  shows "loadQuizState courses config m = (m\<lparr>localStorage := (localStorage m)(key := None)\<rparr>, None)
         \<and> key \<notin> dom (localStorage (fst (loadQuizState courses config m)))"
proof -
  from assms(4) obtain e where "parseSavedState courses config txt = Inl e"
    using parseSavedState_invalid by blast
  with assms(1-3) show ?thesis by (simp add: loadQuizState_def)
qed

theorem loadQuizState_self_heal_witness:
  "loadQuizState [] demoConfig corruptManager = (corruptManager\<lparr>localStorage := Map.empty\<rparr>, None)
   \<and> localStorage (fst (loadQuizState [] demoConfig corruptManager)) ''quizState_demo_t1'' = None
   \<and> loadQuizState demoCatalog demoConfig mismatchManager
       = (mismatchManager\<lparr>localStorage := Map.empty\<rparr>, None)"
proof -
  have w: "hasWindow corruptManager" "hasWindow mismatchManager"
    by (simp_all add: corruptManager_def mismatchManager_def)
  have s: "localStorage corruptManager ''quizState_demo_t1'' = Some (Malformed ''{not json'')"
    by (simp add: corruptManager_def)
  let ?doc = "JObj [(''currentIndex'', JNum 0), (''userAnswers'', JArr [JStr ''A'']),
                        (''questionIds'', JArr [])]"
  have t: "localStorage mismatchManager ''quizState_demo_t1'' = Some (JsonText ?doc)"
    by (simp add: mismatchManager_def)
  have i: "(\<exists>s. JsonText ?doc = Malformed s) \<or> (\<exists>v. JsonText ?doc = JsonText v \<and> \<not> structurallyValid v)"
    by (simp add: structurallyValid_def)
  from loadQuizState_self_heal [OF demoConfig_key w(1) s, of "[]"]
    loadQuizState_self_heal [OF demoConfig_key w(2) t i, of demoCatalog]
  show ?thesis
    by (auto simp: corruptManager_def mismatchManager_def)
qed

subsection \<open>Finishing a quiz\<close>

lemma finishQuiz_emits:
  assumes "startTime' s = Some start" and "currentQuestions s \<noteq> []" and "isLoaded s"
  shows "finishQuiz onComplete config s endTime now m =
           Some (onComplete (quizResults config s start endTime now)
                   (if getQuizStateKey (Some config) \<noteq> None then saveQuizState config None m else m))"
  using assms by (simp add: finishQuiz_def)

lemma loadQuizState_after_clear:
  "loadQuizState courses config (saveQuizState config None m) = (saveQuizState config None m, None)"
  by (simp add: loadQuizState_def saveQuizState_def split: option.splits)

lemma loadQuizState_no_key:
  "getQuizStateKey (Some config) = None \<Longrightarrow> loadQuizState courses config m = (m, None)"
  by (simp add: loadQuizState_def)

text \<open>
  C3. When \<^verbatim>\<open>finishQuiz\<close> runs (a start time is set, a question is loaded and the state
  is loaded), the completion callback is called on a manager state from which the saved
  state of the quiz is gone: \<^verbatim>\<open>loadQuizState\<close> of the same config returns \<^verbatim>\<open>null\<close>
  there, and in a browser the key is in neither the store nor the in-memory index.
\<close>

theorem finishQuiz_clears_saved_state:
  assumes "startTime' s = Some start" and "currentQuestions s \<noteq> []" and "isLoaded s"
  shows "\<exists>m1. finishQuiz onComplete config s endTime now m =
                 Some (onComplete (quizResults config s start endTime now) m1)
              \<and> loadQuizState courses config m1 = (m1, None)
              \<and> (\<forall>key. hasWindow m \<and> getQuizStateKey (Some config) = Some key \<longrightarrow>
                     localStorage m1 key = None \<and> inProgressQuizzes m1 key = None)"
proof -
  let ?m1 = "if getQuizStateKey (Some config) \<noteq> None then saveQuizState config None m else m"
  have a: "finishQuiz onComplete config s endTime now m =
             Some (onComplete (quizResults config s start endTime now) ?m1)"
    by (rule finishQuiz_emits [OF assms])
  have b: "loadQuizState courses config ?m1 = (?m1, None)"
    by (cases "getQuizStateKey (Some config)")
       (simp_all add: loadQuizState_no_key loadQuizState_after_clear)
  have c: "\<forall>key. hasWindow m \<and> getQuizStateKey (Some config) = Some key \<longrightarrow>
             localStorage ?m1 key = None \<and> inProgressQuizzes ?m1 key = None"
    by (simp add: saveQuizState_def)
  from a b c show ?thesis by blast
qed

theorem finishQuiz_clears_saved_state_witness:
  "localStorage demoManager ''quizState_demo_t1'' \<noteq> None
   \<and> (\<exists>m1. finishQuiz Pair demoConfig demoSession 61000 61500 demoManager =
               Some (quizResults demoConfig demoSession 1000 61000 61500, m1)
          \<and> loadQuizState demoCatalog demoConfig m1 = (m1, None)
          \<and> localStorage m1 ''quizState_demo_t1'' = None)"
proof -
  have a: "startTime' demoSession = Some 1000" "currentQuestions demoSession \<noteq> []"
    "isLoaded demoSession" "hasWindow demoManager"
    by (simp_all add: demoSession_def demoManager_def)
  have b: "localStorage demoManager ''quizState_demo_t1'' \<noteq> None"
    by (simp add: demoManager_def)
  from finishQuiz_clears_saved_state [OF a(1-3), of Pair demoConfig 61000 61500 demoManager demoCatalog]
    a(4) b demoConfig_key
  show ?thesis by auto
qed

lemma length_scoreAnswers: "length (snd (scoreAnswers as qs k c)) = length qs"
  by (induction qs arbitrary: k c) (simp_all add: Let_def case_prod_beta)

lemma nth_scoreAnswers:
  "i < length qs \<Longrightarrow> snd (scoreAnswers as qs k c) ! i = answerDetail as (qs ! i) (k + i)"
proof (induction qs arbitrary: k c i)
  case Nil
  then show ?case by simp
next
  case (Cons q qs)
  show ?case
  proof (cases i)
    case 0
    then show ?thesis by (simp add: Let_def case_prod_beta)
  next
    case (Suc j)
    with Cons.prems have "j < length qs" by simp
    from Cons.IH [OF this, of "Suc k"] Suc show ?thesis
      by (simp add: Let_def case_prod_beta)
  qed
qed

lemma fst_scoreAnswers:
  "fst (scoreAnswers as qs k c) = c + length (filter isCorrect (snd (scoreAnswers as qs k c)))"
proof (induction qs arbitrary: k c)
  case Nil
  then show ?case by simp
next
  case (Cons q qs)
  show ?case
    using Cons.IH [of "Suc k" "if isCorrect (answerDetail as q k) then c + 1 else c"]
    by (simp add: Let_def case_prod_beta)
qed

lemma quizResults_frame:
  "quizResults config (s\<lparr>answerStatuses := sts, checkedAnswers' := cs,
       showFeedbackForSingleChoice := b, currentQuestionIndex := i\<rparr>) start endTime now
   = quizResults config s start endTime now"
  by (simp add: quizResults_def)

lemma finalCorrect_single:
  "length ca \<le> 1 \<Longrightarrow>
     finalCorrect ca a = (case a of Some (AStr k) \<Rightarrow> k \<in> set ca | Some (AArr xs) \<Rightarrow> False
        | Some (ASet xs) \<Rightarrow> False | Some ANull \<Rightarrow> [] \<in> set ca | None \<Rightarrow> [] \<in> set ca)"
  by (cases a rule: orEmptyString.cases) (simp_all add: finalCorrect_def isMultiSelect_def)

lemma finalCorrect_multi:
  "length ca > 1 \<Longrightarrow>
     finalCorrect ca a = (\<exists>xs. a = Some (ASet xs) \<and> length xs = length ca \<and> set ca \<subseteq> set xs)"
  by (cases "(ca, a)" rule: exactSetMatch.cases)
     (auto simp: finalCorrect_def isMultiSelect_def list_all_iff)

text \<open>
  C1, amended. When \<^verbatim>\<open>finishQuiz\<close> runs, the results it hands over do not depend on
  the cached statuses, checked flags, feedback flag or current index. For each question
  the detail holds the stored answer and a flag computed from it: for a question with at
  most one correct key, the flag says that the answer, or the empty string in place of
  \<^verbatim>\<open>null\<close> and \<^verbatim>\<open>undefined\<close>, is one of the correct keys, so a \<^verbatim>\<open>null\<close> answer is
  incorrect unless the empty string is a correct key; for a question with more than one
  correct key, the flag says that the answer is a set of as many elements as there are
  correct keys that holds every correct key. The score is the number of flags that hold.
\<close>

theorem finishQuiz_final_scoring:
  assumes "startTime' s = Some start" and "currentQuestions s \<noteq> []" and "isLoaded s"
  shows "\<exists>r m1. finishQuiz onComplete config s endTime now m = Some (onComplete r m1)
      \<and> r = quizResults config s start endTime now
      \<and> (\<forall>sts cs b i. quizResults config (s\<lparr>answerStatuses := sts, checkedAnswers' := cs,
              showFeedbackForSingleChoice := b, currentQuestionIndex := i\<rparr>) start endTime now = r)
      \<and> totalQuestions r = length (currentQuestions s)
      \<and> length (answers r) = length (currentQuestions s)
      \<and> score r = length (filter isCorrect (answers r))
      \<and> (\<forall>i < length (currentQuestions s).
            let q = currentQuestions s ! i; a = js_nth (userAnswers' s) (int i); d = answers r ! i
            in questionId d = item_id q \<and> userAnswer d = a
               \<and> (length (correctAnswer q) \<le> 1 \<longrightarrow>
                    isCorrect d =
                      (case a of
                         Some (AStr k) \<Rightarrow> k \<in> set (correctAnswer q)
                       | Some (AArr xs) \<Rightarrow> False
                       | Some (ASet xs) \<Rightarrow> False
                       | Some ANull \<Rightarrow> [] \<in> set (correctAnswer q)
                       | None \<Rightarrow> [] \<in> set (correctAnswer q)))
               \<and> (length (correctAnswer q) \<le> 1 \<and> [] \<notin> set (correctAnswer q)
                      \<and> (a = Some ANull \<or> a = None) \<longrightarrow> \<not> isCorrect d)
               \<and> (length (correctAnswer q) > 1 \<longrightarrow>
                    isCorrect d =
                      (\<exists>xs. a = Some (ASet xs) \<and> length xs = length (correctAnswer q)
                            \<and> set (correctAnswer q) \<subseteq> set xs)))"
proof -
  let ?r = "quizResults config s start endTime now"
  let ?sc = "scoreAnswers (userAnswers' s) (currentQuestions s) 0 0"
  have ans: "answers ?r = snd ?sc" and sc: "score ?r = fst ?sc"
    and tot: "totalQuestions ?r = length (currentQuestions s)"
    by (simp_all add: quizResults_def Let_def case_prod_beta)
  have len: "length (answers ?r) = length (currentQuestions s)"
    by (simp add: ans length_scoreAnswers)
  have score: "score ?r = length (filter isCorrect (answers ?r))"
    using fst_scoreAnswers [of "userAnswers' s" "currentQuestions s" 0 0] by (simp add: ans sc)
  have each: "\<forall>i < length (currentQuestions s).
            let q = currentQuestions s ! i; a = js_nth (userAnswers' s) (int i); d = answers ?r ! i
            in questionId d = item_id q \<and> userAnswer d = a
               \<and> (length (correctAnswer q) \<le> 1 \<longrightarrow>
                    isCorrect d =
                      (case a of
                         Some (AStr k) \<Rightarrow> k \<in> set (correctAnswer q)
                       | Some (AArr xs) \<Rightarrow> False
                       | Some (ASet xs) \<Rightarrow> False
                       | Some ANull \<Rightarrow> [] \<in> set (correctAnswer q)
                       | None \<Rightarrow> [] \<in> set (correctAnswer q)))
               \<and> (length (correctAnswer q) \<le> 1 \<and> [] \<notin> set (correctAnswer q)
                      \<and> (a = Some ANull \<or> a = None) \<longrightarrow> \<not> isCorrect d)
               \<and> (length (correctAnswer q) > 1 \<longrightarrow>
                    isCorrect d =
                      (\<exists>xs. a = Some (ASet xs) \<and> length xs = length (correctAnswer q)
                            \<and> set (correctAnswer q) \<subseteq> set xs))"
  proof (intro allI impI)
    fix i assume i: "i < length (currentQuestions s)"
    have d: "answers ?r ! i = answerDetail (userAnswers' s) (currentQuestions s ! i) i"
      using nth_scoreAnswers [OF i, of "userAnswers' s" 0 0] by (simp add: ans)
    show "let q = currentQuestions s ! i; a = js_nth (userAnswers' s) (int i); d = answers ?r ! i
            in questionId d = item_id q \<and> userAnswer d = a
               \<and> (length (correctAnswer q) \<le> 1 \<longrightarrow>
                    isCorrect d =
                      (case a of
                         Some (AStr k) \<Rightarrow> k \<in> set (correctAnswer q)
                       | Some (AArr xs) \<Rightarrow> False
                       | Some (ASet xs) \<Rightarrow> False
                       | Some ANull \<Rightarrow> [] \<in> set (correctAnswer q)
                       | None \<Rightarrow> [] \<in> set (correctAnswer q)))
               \<and> (length (correctAnswer q) \<le> 1 \<and> [] \<notin> set (correctAnswer q)
                      \<and> (a = Some ANull \<or> a = None) \<longrightarrow> \<not> isCorrect d)
               \<and> (length (correctAnswer q) > 1 \<longrightarrow>
                    isCorrect d =
                      (\<exists>xs. a = Some (ASet xs) \<and> length xs = length (correctAnswer q)
                            \<and> set (correctAnswer q) \<subseteq> set xs))"
      unfolding Let_def d
      by (auto simp: answerDetail_def Let_def finalCorrect_single finalCorrect_multi)
  qed
  from finishQuiz_emits [OF assms, of onComplete config endTime now m]
    quizResults_frame tot len score each
  show ?thesis by blast
qed


lemma demo_ids:
  "String_id (item_id demoQ1) = ''1''" "String_id (item_id demoQ2) = ''2''"
  "String_id (item_id demoQ3) = ''q3''"
  by (simp_all add: demoQ1_def demoQ2_def demoQ3_def String_of_int_digit)

lemma demo_lookup:
  "getQuestionById demoCatalog (Some ''demo'') (JNum 1) = Some demoQ1"
  "getQuestionById demoCatalog (Some ''demo'') (JNum 2) = Some demoQ2"
  by (simp_all add: getQuestionById_def getCourseById_def demoCatalog_def demoCourse_def
        demo_ids String_of_int_digit)

lemma demo_correct:
  "correctAnswer demoQ1 = [''A'']" "correctAnswer demoQ2 = [''A'', ''B'']"
  by (simp_all add: demoQ1_def demoQ2_def)

theorem finishQuiz_final_scoring_witness:
  "\<exists>r m1. finishQuiz Pair demoConfig demoSession 61000 61500 demoManager = Some (r, m1)
      \<and> map isCorrect (answers r) = [True, True] \<and> score r = 2 \<and> totalQuestions r = 2"
proof -
  have a: "startTime' demoSession = Some 1000" "currentQuestions demoSession \<noteq> []"
    "isLoaded demoSession"
    by (simp_all add: demoSession_def)
  have b: "map isCorrect (answers (quizResults demoConfig demoSession 1000 61000 61500)) = [True, True]"
    by (simp add: quizResults_def demoSession_def answerDetail_def js_nth_def finalCorrect_def
          isMultiSelect_def demo_correct Let_def)
  have c: "\<And>xs. map isCorrect xs = [True, True] \<Longrightarrow> length (filter isCorrect xs) = 2"
    by auto
  from finishQuiz_final_scoring [OF a, of Pair demoConfig 61000 61500 demoManager]
  obtain r m1 where 1: "finishQuiz Pair demoConfig demoSession 61000 61500 demoManager = Some (r, m1)"
    and 2: "r = quizResults demoConfig demoSession 1000 61000 61500"
    and 3: "score r = length (filter isCorrect (answers r))"
    and 4: "totalQuestions r = length (currentQuestions demoSession)"
    by (elim exE conjE) simp
  from 2 b have "map isCorrect (answers r) = [True, True]" by simp
  with 1 3 4 c show ?thesis by (auto simp: demoSession_def)
qed

text \<open>
  The claim C1 as stated fails for a question whose correct key is the empty string: the
  unanswered question counts as correct.
\<close>

theorem finishQuiz_null_answer_counterexample:
  "length (correctAnswer emptyKeyQ) \<le> 1
   \<and> js_nth (userAnswers' emptyKeySession) 0 = Some ANull
   \<and> finishQuiz Pair demoConfig emptyKeySession 10 20 demoManager
       = Some (quizResults demoConfig emptyKeySession 0 10 20, saveQuizState demoConfig None demoManager)
   \<and> map isCorrect (answers (quizResults demoConfig emptyKeySession 0 10 20)) = [True]
   \<and> score (quizResults demoConfig emptyKeySession 0 10 20) = 1"
  by (simp add: finishQuiz_def demoConfig_key quizResults_def emptyKeySession_def emptyKeyQ_def
        answerDetail_def js_nth_def finalCorrect_def isMultiSelect_def Let_def)

subsection \<open>Resuming a saved quiz\<close>

lemma includes_answer_iff: "includes_answer ca a \<longleftrightarrow> (\<exists>k. a = AStr k \<and> k \<in> set ca)"
  by (cases a) simp_all

lemma length_restoredAnswers: "length (restoredAnswers qs saved) = length saved"
  by (simp add: restoredAnswers_def)

lemma nth_restoredAnswers_single:
  assumes "i < length saved" and "js_nth qs (int i) = Some q" and "\<not> isMultiSelect (correctAnswer q)"
  shows "restoredAnswers qs saved ! i = saved ! i"
  using assms by (simp add: restoredAnswers_def split: Answer.splits)

lemma nth_restoredStatuses:
  "i < length as \<Longrightarrow>
     restoredStatuses qs as ! i =
       (case js_nth qs (int i) of
          None \<Rightarrow> None
        | Some q \<Rightarrow>
            if isMultiSelect (correctAnswer q) \<or> as ! i = ANull then None
            else Some (if includes_answer (correctAnswer q) (as ! i) then Correct else Incorrect))"
  by (simp add: restoredStatuses_def)

lemma resumeQuiz_fields:
  "answerStatuses (resumeQuiz courses config st now)
     = restoredStatuses (currentQuestions (resumeQuiz courses config st now))
         (restoredAnswers (currentQuestions (resumeQuiz courses config st now)) (userAnswers st))"
  "userAnswers' (resumeQuiz courses config st now)
     = restoredAnswers (currentQuestions (resumeQuiz courses config st now)) (userAnswers st)"
  "currentQuestions (resumeQuiz courses config st now)
     = List.map_filter (\<lambda>i. getQuestionById courses (Some (courseId config)) (id_val i)) (questionIds st)"
  by (simp_all add: resumeQuiz_def Let_def)

lemma map_filter_all_Some:
  "\<forall>x \<in> set xs. f x \<noteq> None \<Longrightarrow> List.map_filter f xs = map (\<lambda>x. the (f x)) xs"
  by (induction xs) (auto simp: List.map_filter_simps split: option.splits)

lemma resumeQuiz_all_resolved:
  assumes "\<forall>qid \<in> set (questionIds st). getQuestionById courses (Some (courseId config)) (id_val qid) \<noteq> None"
  shows "length (currentQuestions (resumeQuiz courses config st now)) = length (questionIds st)"
    and "i < length (questionIds st) \<Longrightarrow>
           getQuestionById courses (Some (courseId config)) (id_val (questionIds st ! i))
             = Some (currentQuestions (resumeQuiz courses config st now) ! i)"
  using assms by (simp_all add: resumeQuiz_fields(3) map_filter_all_Some)

lemma status_of_question:
  assumes i: "i < length (userAnswers st)"
    and q: "js_nth (currentQuestions (resumeQuiz courses config st now)) (int i) = Some q"
  shows "(length (correctAnswer q) > 1 \<longrightarrow> answerStatuses (resumeQuiz courses config st now) ! i = None)
         \<and> (length (correctAnswer q) \<le> 1 \<and> userAnswers st ! i = ANull \<longrightarrow>
               answerStatuses (resumeQuiz courses config st now) ! i = None)
         \<and> (length (correctAnswer q) \<le> 1 \<and> userAnswers st ! i \<noteq> ANull \<longrightarrow>
               answerStatuses (resumeQuiz courses config st now) ! i =
                 Some (if \<exists>k. userAnswers st ! i = AStr k \<and> k \<in> set (correctAnswer q)
                       then Correct else Incorrect))"
proof -
  let ?sess = "resumeQuiz courses config st now"
  let ?qs = "currentQuestions ?sess"
  from i have i': "i < length (restoredAnswers ?qs (userAnswers st))"
    by (simp add: length_restoredAnswers)
  have st: "answerStatuses ?sess ! i =
       (if isMultiSelect (correctAnswer q) \<or> restoredAnswers ?qs (userAnswers st) ! i = ANull then None
        else Some (if includes_answer (correctAnswer q) (restoredAnswers ?qs (userAnswers st) ! i)
                   then Correct else Incorrect))"
    using nth_restoredStatuses [OF i', of ?qs] q by (simp add: resumeQuiz_fields(1))
  show ?thesis
  proof (cases "isMultiSelect (correctAnswer q)")
    case True
    with st show ?thesis by (simp add: isMultiSelect_def)
  next
    case False
    from nth_restoredAnswers_single [OF i q False]
    have "restoredAnswers ?qs (userAnswers st) ! i = userAnswers st ! i" .
    with st False show ?thesis
      by (simp add: isMultiSelect_def includes_answer_iff)
  qed
qed

lemma status_beyond_questions:
  assumes i: "i < length (userAnswers st)"
    and q: "js_nth (currentQuestions (resumeQuiz courses config st now)) (int i) = None"
  shows "answerStatuses (resumeQuiz courses config st now) ! i = None"
proof -
  let ?sess = "resumeQuiz courses config st now"
  let ?qs = "currentQuestions ?sess"
  from i have i': "i < length (restoredAnswers ?qs (userAnswers st))"
    by (simp add: length_restoredAnswers)
  show ?thesis
    using nth_restoredStatuses [OF i', of ?qs] q by (simp add: resumeQuiz_fields(1))
qed

lemma length_statuses:
  "length (answerStatuses (resumeQuiz courses config st now)) = length (userAnswers st)"
  by (simp add: resumeQuiz_fields(1) restoredStatuses_def length_restoredAnswers)

text \<open>
  C5, amended. Let every question id of the saved state resolve in the catalog. Then the
  session holds one question per saved id, in their order, and one status per stored
  answer. The status of a question with more than one correct key is \<^verbatim>\<open>null\<close>, whatever
  its checked flag says. The status of a question with at most one correct key is
  \<^verbatim>\<open>null\<close> when its stored answer is \<^verbatim>\<open>null\<close>, and otherwise it is correct exactly when
  its stored answer is one of the correct keys. An answer beyond the question ids has the
  status \<^verbatim>\<open>null\<close>.
\<close>

theorem resumeQuiz_statuses:
  assumes "\<forall>qid \<in> set (questionIds st).
             getQuestionById courses (Some (courseId config)) (id_val qid) \<noteq> None"
  shows "let sess = resumeQuiz courses config st now
         in length (currentQuestions sess) = length (questionIds st)
            \<and> length (answerStatuses sess) = length (userAnswers st)
            \<and> (\<forall>i < length (userAnswers st).
                  if i < length (questionIds st)
                  then (\<exists>q. getQuestionById courses (Some (courseId config)) (id_val (questionIds st ! i)) = Some q
                          \<and> currentQuestions sess ! i = q
                          \<and> (length (correctAnswer q) > 1 \<longrightarrow> answerStatuses sess ! i = None)
                          \<and> (length (correctAnswer q) \<le> 1 \<and> userAnswers st ! i = ANull \<longrightarrow>
                                answerStatuses sess ! i = None)
                          \<and> (length (correctAnswer q) \<le> 1 \<and> userAnswers st ! i \<noteq> ANull \<longrightarrow>
                                answerStatuses sess ! i =
                                  Some (if \<exists>k. userAnswers st ! i = AStr k \<and> k \<in> set (correctAnswer q)
                                        then Correct else Incorrect)))
                  else answerStatuses sess ! i = None)"
proof -
  let ?sess = "resumeQuiz courses config st now"
  note res = resumeQuiz_all_resolved [OF assms, where now = now]
  have each: "\<forall>i < length (userAnswers st).
                  if i < length (questionIds st)
                  then (\<exists>q. getQuestionById courses (Some (courseId config)) (id_val (questionIds st ! i)) = Some q
                          \<and> currentQuestions ?sess ! i = q
                          \<and> (length (correctAnswer q) > 1 \<longrightarrow> answerStatuses ?sess ! i = None)
                          \<and> (length (correctAnswer q) \<le> 1 \<and> userAnswers st ! i = ANull \<longrightarrow>
                                answerStatuses ?sess ! i = None)
                          \<and> (length (correctAnswer q) \<le> 1 \<and> userAnswers st ! i \<noteq> ANull \<longrightarrow>
                                answerStatuses ?sess ! i =
                                  Some (if \<exists>k. userAnswers st ! i = AStr k \<and> k \<in> set (correctAnswer q)
                                        then Correct else Incorrect)))
                  else answerStatuses ?sess ! i = None"
  proof (intro allI impI)
    fix i assume i: "i < length (userAnswers st)"
    show "if i < length (questionIds st)
                  then (\<exists>q. getQuestionById courses (Some (courseId config)) (id_val (questionIds st ! i)) = Some q
                          \<and> currentQuestions ?sess ! i = q
                          \<and> (length (correctAnswer q) > 1 \<longrightarrow> answerStatuses ?sess ! i = None)
                          \<and> (length (correctAnswer q) \<le> 1 \<and> userAnswers st ! i = ANull \<longrightarrow>
                                answerStatuses ?sess ! i = None)
                          \<and> (length (correctAnswer q) \<le> 1 \<and> userAnswers st ! i \<noteq> ANull \<longrightarrow>
                                answerStatuses ?sess ! i =
                                  Some (if \<exists>k. userAnswers st ! i = AStr k \<and> k \<in> set (correctAnswer q)
                                        then Correct else Incorrect)))
                  else answerStatuses ?sess ! i = None"
    proof (cases "i < length (questionIds st)")
      case True
      with res(1) have "js_nth (currentQuestions ?sess) (int i) = Some (currentQuestions ?sess ! i)"
        by (simp add: js_nth_def)
      from status_of_question [OF i this] res(2) [OF True] True show ?thesis by simp
    next
      case False
      with res(1) have "js_nth (currentQuestions ?sess) (int i) = None"
        by (simp add: js_nth_def)
      from status_beyond_questions [OF i this] False show ?thesis by simp
    qed
  qed
  from res(1) length_statuses [where courses = courses and config = config and st = st and now = now] each show ?thesis
    by (simp only: Let_def)
qed

lemma demo_resume_questions:
  "questionIds st = [IdNum 1, IdNum 2] \<Longrightarrow>
     currentQuestions (resumeQuiz demoCatalog demoConfig st now) = [demoQ1, demoQ2]"
  by (simp add: resumeQuiz_fields(3) List.map_filter_def demoConfig_def id_val_def demo_lookup)

theorem resumeQuiz_statuses_witness:
  "length (currentQuestions (resumeQuiz demoCatalog demoConfig checkedSaved 5000)) = 2
   \<and> answerStatuses (resumeQuiz demoCatalog demoConfig checkedSaved 5000) ! 0 = Some Correct
   \<and> answerStatuses (resumeQuiz demoCatalog demoConfig checkedSaved 5000) ! 1 = None"
proof -
  have ids: "questionIds checkedSaved = [IdNum 1, IdNum 2]" by (simp add: checkedSaved_def)
  have u: "userAnswers checkedSaved = [AStr ''A'', ASet [''A'', ''B'']]"
    by (simp add: checkedSaved_def)
  have c: "courseId demoConfig = ''demo''" by (simp add: demoConfig_def)
  have res: "\<forall>qid \<in> set (questionIds checkedSaved).
               getQuestionById demoCatalog (Some (courseId demoConfig)) (id_val qid) \<noteq> None"
    by (simp add: ids c id_val_def demo_lookup)
  note r = resumeQuiz_statuses [OF res, where now = 5000, unfolded Let_def]
  from r have l: "length (currentQuestions (resumeQuiz demoCatalog demoConfig checkedSaved 5000)) = 2"
    by (simp add: ids)
  from r have each: "\<And>i. i < 2 \<Longrightarrow>
      (\<exists>q. getQuestionById demoCatalog (Some ''demo'') (id_val ([IdNum 1, IdNum 2] ! i)) = Some q
          \<and> (length (correctAnswer q) > 1 \<longrightarrow>
                answerStatuses (resumeQuiz demoCatalog demoConfig checkedSaved 5000) ! i = None)
          \<and> (length (correctAnswer q) \<le> 1 \<and> [AStr ''A'', ASet [''A'', ''B'']] ! i \<noteq> ANull \<longrightarrow>
                answerStatuses (resumeQuiz demoCatalog demoConfig checkedSaved 5000) ! i =
                  Some (if \<exists>k. [AStr ''A'', ASet [''A'', ''B'']] ! i = AStr k \<and> k \<in> set (correctAnswer q)
                        then Correct else Incorrect)))"
    by (simp add: ids u c)
  from each [of 0] have s0: "answerStatuses (resumeQuiz demoCatalog demoConfig checkedSaved 5000) ! 0 = Some Correct"
    by (simp add: id_val_def demo_lookup demo_correct)
  from each [of 1] have s1: "answerStatuses (resumeQuiz demoCatalog demoConfig checkedSaved 5000) ! 1 = None"
    by (simp add: id_val_def demo_lookup demo_correct)
  from l s0 s1 show ?thesis by simp
qed

text \<open>
  When a saved id no longer resolves, the restored questions move up while the answers
  stay in place: question 1, whose stored answer A is correct, is paired with the answer
  B of the missing question.
\<close>

lemma resumeQuiz_dropped_id:
  "currentQuestions (resumeQuiz demoCatalog demoConfig droppedSaved 5000) = [demoQ1]
   \<and> userAnswers' (resumeQuiz demoCatalog demoConfig droppedSaved 5000) = [AStr ''B'', ANull]
   \<and> answerStatuses (resumeQuiz demoCatalog demoConfig droppedSaved 5000) = [Some Incorrect, None]"
proof -
  have g: "getQuestionById demoCatalog (Some ''demo'') (JStr ''gone'') = None"
    by (simp add: getQuestionById_def getCourseById_def demoCatalog_def demoCourse_def demo_ids)
  have ids: "questionIds droppedSaved = [IdStr ''gone'', IdNum 1]" by (simp add: droppedSaved_def)
  have u: "userAnswers droppedSaved = [AStr ''B'', AStr ''A'']" by (simp add: droppedSaved_def)
  have q: "currentQuestions (resumeQuiz demoCatalog demoConfig droppedSaved 5000) = [demoQ1]"
    by (simp add: resumeQuiz_fields(3) List.map_filter_def demoConfig_def id_val_def demo_lookup g ids)
  have a: "userAnswers' (resumeQuiz demoCatalog demoConfig droppedSaved 5000) = [AStr ''B'', ANull]"
    by (simp add: resumeQuiz_fields(2) q u restoredAnswers_def js_nth_def demo_correct isMultiSelect_def)
  have s: "answerStatuses (resumeQuiz demoCatalog demoConfig droppedSaved 5000) = [Some Incorrect, None]"
    using a by (simp add: resumeQuiz_fields(1,2) q restoredStatuses_def js_nth_def demo_correct
          isMultiSelect_def)
  from q a s show ?thesis by simp
qed

text \<open>
  The claim C5 as stated fails for a checked multi-select question: the stored answer
  matches exactly and the checked flag is restored, yet the status is \<^verbatim>\<open>null\<close>.
\<close>

theorem resumeQuiz_checked_multi_counterexample:
  "checkedAnswers' (resumeQuiz demoCatalog demoConfig checkedSaved 5000) = [True, True]
   \<and> length (correctAnswer (currentQuestions (resumeQuiz demoCatalog demoConfig checkedSaved 5000) ! 1)) > 1
   \<and> exactSetMatch (correctAnswer demoQ2)
        (js_nth (userAnswers' (resumeQuiz demoCatalog demoConfig checkedSaved 5000)) 1)
   \<and> answerStatuses (resumeQuiz demoCatalog demoConfig checkedSaved 5000) = [Some Correct, None]"
proof -
  have q: "currentQuestions (resumeQuiz demoCatalog demoConfig checkedSaved 5000) = [demoQ1, demoQ2]"
    by (rule demo_resume_questions) (simp add: checkedSaved_def)
  have u: "userAnswers checkedSaved = [AStr ''A'', ASet [''A'', ''B'']]"
    by (simp add: checkedSaved_def)
  have a: "userAnswers' (resumeQuiz demoCatalog demoConfig checkedSaved 5000)
             = [AStr ''A'', ASet [''A'', ''B'']]"
    by (simp add: resumeQuiz_fields(2) q u restoredAnswers_def js_nth_def)
  have s: "answerStatuses (resumeQuiz demoCatalog demoConfig checkedSaved 5000) = [Some Correct, None]"
    using a by (simp add: resumeQuiz_fields(1,2) q restoredStatuses_def js_nth_def demo_correct
          isMultiSelect_def)
  have c: "checkedAnswers' (resumeQuiz demoCatalog demoConfig checkedSaved 5000) = [True, True]"
    using q by (simp add: resumeQuiz_fields(3) resumeQuiz_def Let_def checkedSaved_def)
  from q a s c show ?thesis by (simp add: js_nth_def demo_correct)
qed

text \<open>
  C6. The saved state of the demo quiz with \<^verbatim>\<open>currentIndex\<close> set to \<^verbatim>\<open>-1\<close> passes the
  validation of the loader; resumed, the session has two questions and the current index
  \<^verbatim>\<open>-1\<close>, at which there is no question.
\<close>

theorem resumeQuiz_negative_index:
  "validCore (to_json (state_obj (demoSaved\<lparr>currentIndex := - 1\<rparr>)))
   \<and> length (currentQuestions (resumeQuiz demoCatalog demoConfig (demoSaved\<lparr>currentIndex := - 1\<rparr>) 5000)) = 2
   \<and> currentQuestionIndex (resumeQuiz demoCatalog demoConfig (demoSaved\<lparr>currentIndex := - 1\<rparr>) 5000) = - 1
   \<and> js_nth (currentQuestions (resumeQuiz demoCatalog demoConfig (demoSaved\<lparr>currentIndex := - 1\<rparr>) 5000))
        (currentQuestionIndex (resumeQuiz demoCatalog demoConfig (demoSaved\<lparr>currentIndex := - 1\<rparr>) 5000))
      = None"
proof -
  let ?st = "demoSaved\<lparr>currentIndex := - 1\<rparr>"
  have q: "currentQuestions (resumeQuiz demoCatalog demoConfig ?st 5000) = [demoQ1, demoQ2]"
    by (rule demo_resume_questions) (simp add: demoSaved_def)
  have i: "currentQuestionIndex (resumeQuiz demoCatalog demoConfig ?st 5000) = - 1"
    using q [unfolded resumeQuiz_fields(3)] by (simp add: resumeQuiz_def Let_def demoSaved_def)
  have v: "validCore (to_json (state_obj ?st))"
    by (simp add: validCore_def state_obj_def demoSaved_def)
  from q i v show ?thesis by (simp add: js_nth_def)
qed


subsection \<open>Saving and loading\<close>

lemma to_json_ans_val: "to_json (ans_val (answerForStorage a)) = ans_val (answerForStorage a)"
  by (cases a) (simp_all add: comp_def)

lemma to_json_id_val: "to_json (id_val i) = id_val i"
  by (cases i) (simp_all add: id_val_def)

lemma to_json_stateToSave:
  "userAnswers st = map answerForStorage as \<Longrightarrow> to_json (state_obj st) = state_obj st"
  by (simp add: state_obj_def comp_def to_json_ans_val to_json_id_val split: option.splits)

lemma get_prop_state_obj:
  "get_prop (state_obj st) ''currentIndex'' = Some (JNum (currentIndex st))"
  "get_prop (state_obj st) ''userAnswers'' = Some (JArr (map ans_val (userAnswers st)))"
  "get_prop (state_obj st) ''questionIds'' = Some (JArr (map id_val (questionIds st)))"
  "get_prop (state_obj st) ''checkedAnswers''
     = (case checkedAnswers st of None \<Rightarrow> None | Some cs \<Rightarrow> Some (JArr (map JBool cs)))"
  by (simp_all add: state_obj_def split: option.splits)

lemma validCore_state_obj:
  "validCore (state_obj st) = (length (questionIds st) = length (userAnswers st))"
  by (simp add: validCore_def get_prop_state_obj) (simp add: state_obj_def)

lemma fold_Set_add_strings:
  "fold Set_add (map JStr xs) (map JStr acc)
     = map JStr (fold (\<lambda>x s. if x \<in> set s then s else s @ [x]) xs acc)"
proof (induction xs arbitrary: acc)
  case Nil
  then show ?case by simp
next
  case (Cons x xs)
  have "Set_add (JStr x) (map JStr acc) = map JStr (if x \<in> set acc then acc else acc @ [x])"
    by (auto simp: Set_add_def)
  with Cons.IH [of "if x \<in> set acc then acc else acc @ [x]"] show ?case by simp
qed

lemma new_Set_strings: "new_Set (map JStr xs) = map JStr (Set_of_strings xs)"
  using fold_Set_add_strings [of xs "[]"] by (simp add: new_Set_def Set_of_strings_def)

lemma fold_add_distinct:
  "distinct (acc @ xs) \<Longrightarrow> fold (\<lambda>x s. if x \<in> set s then s else s @ [x]) xs acc = acc @ xs"
  by (induction xs arbitrary: acc) auto

lemma Set_of_strings_distinct: "distinct xs \<Longrightarrow> Set_of_strings xs = xs"
  using fold_add_distinct [of "[]" xs] by (simp add: Set_of_strings_def)

lemma restoreAnswer_typed:
  assumes "i < length qids" and "case a of ASet xs \<Rightarrow> distinct xs | _ \<Rightarrow> True"
  shows "restoreAnswer courses config (map id_val qids) (ans_val (answerForStorage a)) i
         = ans_val (expectedAnswer (multiSelectQuestion courses config (qids ! i)) a)"
proof (cases "getQuestionById courses (Some (courseId config)) (id_val (qids ! i))")
  case None
  with assms show ?thesis
    by (cases a)
       (simp_all add: restoreAnswer_def expectedAnswer_def multiSelectQuestion_def isMultiSelect_def)
next
  case (Some q)
  with assms show ?thesis
    by (cases a)
       (simp_all add: restoreAnswer_def expectedAnswer_def multiSelectQuestion_def isMultiSelect_def
          new_Set_strings Set_of_strings_distinct)
qed

lemma restored_answers_typed:
  assumes "length as = length qids"
    and "list_all (\<lambda>a. case a of ASet xs \<Rightarrow> distinct xs | _ \<Rightarrow> True) as"
  shows "map (\<lambda>(ans, index). restoreAnswer courses config (map id_val qids) ans index)
           (zip (map ans_val (map answerForStorage as)) [0..<length (map ans_val (map answerForStorage as))])
         = map ans_val (map (\<lambda>(a, qid). expectedAnswer (multiSelectQuestion courses config qid) a)
                          (zip as qids))"
proof (rule nth_equalityI)
  show "length (map (\<lambda>(ans, index). restoreAnswer courses config (map id_val qids) ans index)
           (zip (map ans_val (map answerForStorage as)) [0..<length (map ans_val (map answerForStorage as))]))
      = length (map ans_val (map (\<lambda>(a, qid). expectedAnswer (multiSelectQuestion courses config qid) a)
                          (zip as qids)))"
    using assms(1) by simp
next
  fix i
  assume "i < length (map (\<lambda>(ans, index). restoreAnswer courses config (map id_val qids) ans index)
           (zip (map ans_val (map answerForStorage as)) [0..<length (map ans_val (map answerForStorage as))]))"
  then have i: "i < length as" by simp
  with assms(1) have iq: "i < length qids" by simp
  from assms(2) i have wf: "case as ! i of ASet xs \<Rightarrow> distinct xs | _ \<Rightarrow> True"
    by (simp add: list_all_length)
  from restoreAnswer_typed [OF iq wf, of courses config] i iq
  show "map (\<lambda>(ans, index). restoreAnswer courses config (map id_val qids) ans index)
           (zip (map ans_val (map answerForStorage as)) [0..<length (map ans_val (map answerForStorage as))]) ! i
         = map ans_val (map (\<lambda>(a, qid). expectedAnswer (multiSelectQuestion courses config qid) a)
                          (zip as qids)) ! i"
    by simp
qed

lemma loaded_object:
  "JObj (set_prop ''checkedAnswers'' (JArr (map JBool cs))
          (set_prop ''userAnswers'' (JArr (map ans_val as)) (spread (state_obj st))))
   = state_obj (st\<lparr>userAnswers := as, checkedAnswers := Some cs\<rparr>)"
  by (simp add: state_obj_def split: option.splits)

lemma checked_array:
  "(case get_prop (state_obj st) ''checkedAnswers'' of
      None \<Rightarrow> JArr (replicate (length (map id_val (questionIds st))) (JBool False))
    | Some c \<Rightarrow>
        if truthy c \<and> get_prop c ''length'' = Some (JNum (int (length (map id_val (questionIds st))))) then c
        else JArr (replicate (length (map id_val (questionIds st))) (JBool False)))
   = JArr (map JBool (backfilledChecked st))"
  by (simp add: get_prop_state_obj backfilledChecked_def split: option.splits)

lemma parseSavedState_typed:
  assumes "length (userAnswers st) = length (questionIds st)"
    and "list_all (\<lambda>a. case a of ASet xs \<Rightarrow> distinct xs | _ \<Rightarrow> True) as"
    and "userAnswers st = map answerForStorage as"
  shows "parseSavedState courses config (JsonText (state_obj st))
         = Inr (state_obj (st\<lparr>userAnswers := map (\<lambda>(a, qid). expectedAnswer (multiSelectQuestion courses config qid) a)
                                              (zip as (questionIds st)),
                              checkedAnswers := Some (backfilledChecked st)\<rparr>))"
proof -
  have len: "length as = length (questionIds st)" using assms(1,3) by simp
  have v: "validCore (state_obj st)" using assms(1) by (simp add: validCore_state_obj)
  have q: "elements (get_prop (state_obj st) ''questionIds'') = map id_val (questionIds st)"
    by (simp add: get_prop_state_obj)
  have ua: "elements (get_prop (state_obj st) ''userAnswers'') = map ans_val (map answerForStorage as)"
    by (simp add: get_prop_state_obj assms(3))
  show ?thesis
    unfolding parseSavedState_def Let_def
    by (simp only: JSON_parse.simps sum.case v if_True q ua
          restored_answers_typed [OF len assms(2)] checked_array loaded_object)
qed

lemma saveQuizState_store:
  assumes "getQuizStateKey (Some config) = Some key" and "hasWindow m"
  shows "localStorage (saveQuizState config (Some st) m) key
           = Some (JsonText (state_obj (st\<lparr>userAnswers := map answerForStorage (userAnswers st),
                                             saved_courseId := courseId config,
                                             saved_topicId := topicId config\<rparr>)))"
    and "hasWindow (saveQuizState config (Some st) m)"
proof -
  have "to_json (state_obj (st\<lparr>userAnswers := map answerForStorage (userAnswers st),
                                saved_courseId := courseId config, saved_topicId := topicId config\<rparr>))
        = state_obj (st\<lparr>userAnswers := map answerForStorage (userAnswers st),
                                saved_courseId := courseId config, saved_topicId := topicId config\<rparr>)"
    by (rule to_json_stateToSave [where as = "userAnswers st"]) simp
  with assms show "localStorage (saveQuizState config (Some st) m) key
           = Some (JsonText (state_obj (st\<lparr>userAnswers := map answerForStorage (userAnswers st),
                                             saved_courseId := courseId config,
                                             saved_topicId := topicId config\<rparr>)))"
    by (simp add: saveQuizState_def Let_def JSON_stringify_def)
  from assms show "hasWindow (saveQuizState config (Some st) m)"
    by (simp add: saveQuizState_def Let_def)
qed

lemma parse_saved_document:
  assumes "wellFormedState st"
  shows "parseSavedState courses config
           (JsonText (state_obj (st\<lparr>userAnswers := map answerForStorage (userAnswers st),
                                     saved_courseId := courseId config,
                                     saved_topicId := topicId config\<rparr>)))
         = Inr (state_obj ((reloadedState courses config st)
                  \<lparr>saved_courseId := courseId config, saved_topicId := topicId config\<rparr>))"
proof -
  let ?saved = "st\<lparr>userAnswers := map answerForStorage (userAnswers st),
                    saved_courseId := courseId config, saved_topicId := topicId config\<rparr>"
  from assms have len: "length (userAnswers ?saved) = length (questionIds ?saved)"
    and wf: "list_all (\<lambda>a. case a of ASet xs \<Rightarrow> distinct xs | _ \<Rightarrow> True) (userAnswers st)"
    by (simp_all add: wellFormedState_def)
  have p: "parseSavedState courses config (JsonText (state_obj ?saved))
         = Inr (state_obj (?saved\<lparr>userAnswers := map (\<lambda>(a, qid). expectedAnswer (multiSelectQuestion courses config qid) a)
                                              (zip (userAnswers st) (questionIds ?saved)),
                              checkedAnswers := Some (backfilledChecked ?saved)\<rparr>))"
    by (rule parseSavedState_typed [OF len wf]) simp
  have e: "?saved\<lparr>userAnswers := map (\<lambda>(a, qid). expectedAnswer (multiSelectQuestion courses config qid) a)
                                              (zip (userAnswers st) (questionIds ?saved)),
                              checkedAnswers := Some (backfilledChecked ?saved)\<rparr>
           = (reloadedState courses config st)
               \<lparr>saved_courseId := courseId config, saved_topicId := topicId config\<rparr>"
    by (simp add: reloadedState_def backfilledChecked_def split: option.splits)
  from p e show ?thesis by simp
qed

lemma loadQuizState_stored:
  assumes "getQuizStateKey (Some config) = Some key"
    and "hasWindow m"
    and "localStorage m key = Some txt"
    and "parseSavedState courses config txt = Inr v"
  shows "loadQuizState courses config m = (m, Some v)"
  using assms by (simp add: loadQuizState_def)

text \<open>
  C2, amended. For a config with an identity, in a browser, saving a well-formed state
  and loading it again returns the state with these changes only: an answer stored as an
  array is a set again exactly when its question, resolved from the catalog by the
  persisted id, is multi-select, and every other answer is the string it was or
  \<^verbatim>\<open>null\<close>; the checked flags are replaced by an all-false list of the length of the
  question ids when absent or of another length; and the course id and topic id are those
  of the config.
\<close>

theorem save_load_round_trip:
  assumes "getQuizStateKey (Some config) = Some key"
    and "hasWindow m"
    and "wellFormedState st"
  shows "loadQuizState courses config (saveQuizState config (Some st) m)
         = (saveQuizState config (Some st) m,
            Some (state_obj ((reloadedState courses config st)
                    \<lparr>saved_courseId := courseId config, saved_topicId := topicId config\<rparr>)))"
proof -
  let ?m = "saveQuizState config (Some st) m"
  have w: "hasWindow ?m" by (rule saveQuizState_store(2) [OF assms(1,2)])
  have s: "localStorage ?m key
             = Some (JsonText (state_obj (st\<lparr>userAnswers := map answerForStorage (userAnswers st),
                                               saved_courseId := courseId config,
                                               saved_topicId := topicId config\<rparr>)))"
    by (rule saveQuizState_store(1) [OF assms(1,2)])
  show ?thesis
    by (rule loadQuizState_stored [OF assms(1) w s]) (rule parse_saved_document [OF assms(3)])
qed

lemma demo_multi:
  "multiSelectQuestion demoCatalog demoConfig (IdNum 1) = False"
  "multiSelectQuestion demoCatalog demoConfig (IdNum 2) = True"
  by (simp_all add: multiSelectQuestion_def demoConfig_def id_val_def demo_lookup demo_correct)

lemma demo_reloaded:
  "questionIds st = [IdNum 1, IdNum 2] \<Longrightarrow> userAnswers st = [AStr ''A'', AArr [''A'', ''B'']]
    \<Longrightarrow> checkedAnswers st = Some [False, True]
    \<Longrightarrow> reloadedState demoCatalog demoConfig st = st\<lparr>userAnswers := [AStr ''A'', ASet [''A'', ''B'']]\<rparr>"
  by (simp add: reloadedState_def demo_multi expectedAnswer_def Set_of_strings_def
        backfilledChecked_def)

theorem save_load_round_trip_witness:
  "loadQuizState demoCatalog demoConfig (saveQuizState demoConfig (Some demoSaved) corruptManager)
     = (saveQuizState demoConfig (Some demoSaved) corruptManager,
        Some (state_obj (demoSaved\<lparr>userAnswers := [AStr ''A'', ASet [''A'', ''B'']]\<rparr>)))"
proof -
  have w: "hasWindow corruptManager" by (simp add: corruptManager_def)
  have f: "wellFormedState demoSaved" by (simp add: wellFormedState_def demoSaved_def)
  have r: "reloadedState demoCatalog demoConfig demoSaved
             = demoSaved\<lparr>userAnswers := [AStr ''A'', ASet [''A'', ''B'']]\<rparr>"
    by (rule demo_reloaded) (simp_all add: demoSaved_def)
  from save_load_round_trip [OF demoConfig_key w f, of demoCatalog] r
  show ?thesis by (simp add: demoSaved_def demoConfig_def)
qed

text \<open>
  The claim C2 as stated fails for a state saved under a config of another course: the
  loaded state carries the course id of the config, not the one of the state.
\<close>

theorem save_load_course_counterexample:
  "wellFormedState otherSaved
   \<and> snd (loadQuizState demoCatalog demoConfig (saveQuizState demoConfig (Some otherSaved) demoManager))
       \<noteq> Some (state_obj (reloadedState demoCatalog demoConfig otherSaved))
   \<and> saved_courseId (reloadedState demoCatalog demoConfig otherSaved) = ''other''
   \<and> (\<exists>v. snd (loadQuizState demoCatalog demoConfig (saveQuizState demoConfig (Some otherSaved) demoManager))
             = Some v
          \<and> get_prop v ''courseId'' = Some (JStr ''demo''))"
proof -
  let ?m = "saveQuizState demoConfig (Some otherSaved) demoManager"
  have w: "hasWindow demoManager" by (simp add: demoManager_def)
  have f: "wellFormedState otherSaved"
    by (simp add: wellFormedState_def otherSaved_def demoSaved_def)
  have r: "reloadedState demoCatalog demoConfig otherSaved
             = otherSaved\<lparr>userAnswers := [AStr ''A'', ASet [''A'', ''B'']]\<rparr>"
    by (rule demo_reloaded) (simp_all add: otherSaved_def demoSaved_def)
  have "loadQuizState demoCatalog demoConfig ?m
          = (?m, Some (state_obj ((reloadedState demoCatalog demoConfig otherSaved)
                  \<lparr>saved_courseId := courseId demoConfig, saved_topicId := topicId demoConfig\<rparr>)))"
    by (rule loadQuizState_stored
          [OF demoConfig_key saveQuizState_store(2) [OF demoConfig_key w]
              saveQuizState_store(1) [OF demoConfig_key w] parse_saved_document [OF f]])
  with r f show ?thesis
    by (simp add: state_obj_def otherSaved_def demoSaved_def demoConfig_def)
qed


subsection \<open>Completed-attempt history\<close>

lemma sort_key_snoc:
  "f r \<notin> f ` set xs \<Longrightarrow> sort_key f (xs @ [r]) = insort_key f r (sort_key f xs)"
proof (induction xs)
  case Nil
  then show ?case by simp
next
  case (Cons x xs)
  then have "f x \<noteq> f r" and "f r \<notin> f ` set xs" by auto
  with Cons.IH show ?case by (simp add: insort_key_left_comm)
qed

lemma drop_last_Cons: "m \<le> length xs \<Longrightarrow> drop (Suc (length xs) - m) (p # xs) = drop (length xs - m) xs"
  by (simp add: Suc_diff_le)

lemma last_m_insort:
  assumes "sorted (map f (ps @ hs))"
  shows "drop (length (insort_key f r (ps @ hs)) - length hs) (insort_key f r (ps @ hs))
         = drop (length (insort_key f r hs) - length hs) (insort_key f r hs)"
  using assms
proof (induction ps)
  case Nil
  then show ?case by simp
next
  case (Cons p ps)
  show ?case
  proof (cases "f r \<le> f p")
    case True
    from Cons.prems have "\<forall>x \<in> set hs. f p \<le> f x" by (auto simp: sorted_append)
    with True have "\<forall>x \<in> set hs. f r \<le> f x" by auto
    then have "insort_key f r hs = r # hs" by (rule insort_is_Cons)
    with True show ?thesis by simp
  next
    case False
    from Cons.prems have s: "sorted (map f (ps @ hs))" by simp
    have "drop (length (insort_key f r ((p # ps) @ hs)) - length hs) (insort_key f r ((p # ps) @ hs))
          = drop (Suc (length (insort_key f r (ps @ hs))) - length hs) (p # insort_key f r (ps @ hs))"
      using False by simp
    also have "\<dots> = drop (length (insort_key f r (ps @ hs)) - length hs) (insort_key f r (ps @ hs))"
      by (rule drop_last_Cons) simp
    also have "\<dots> = drop (length (insort_key f r hs) - length hs) (insort_key f r hs)"
      by (rule Cons.IH [OF s])
    finally show ?thesis .
  qed
qed

lemma last_m_insort_drop:
  assumes "sorted (map f xs)"
  shows "drop (Suc (length xs) - m) (insort_key f r xs)
         = drop (Suc (length (drop (length xs - m) xs)) - m) (insort_key f r (drop (length xs - m) xs))"
proof (cases "m \<le> length xs")
  case False
  then show ?thesis by simp
next
  case True
  let ?d = "length xs - m"
  have xs: "xs = take ?d xs @ drop ?d xs" by simp
  have lh: "length (drop ?d xs) = m" using True by simp
  from assms have "sorted (map f (take ?d xs @ drop ?d xs))" by simp
  from last_m_insort [OF this, of r]
  have "drop (Suc (length xs) - m) (insort_key f r xs)
        = drop (Suc m - m) (insort_key f r (drop ?d xs))"
    by (simp only: append_take_drop_id length_insort lh)
  then show ?thesis by (simp only: lh)
qed

lemma sorted_drop_map: "sorted (map f xs) \<Longrightarrow> sorted (map f (drop n xs))"
  by (simp add: drop_map [symmetric])

lemma last_part_of_sorted:
  assumes "sorted (map f s)"
  shows "length (drop (length s - m) s) \<le> m"
    and "sorted (map f (drop (length s - m) s))"
    and "mset (take (length s - m) s) + mset (drop (length s - m) s) = mset s"
    and "\<forall>x \<in> set (take (length s - m) s). \<forall>y \<in> set (drop (length s - m) s). f x \<le> f y"
proof -
  show "length (drop (length s - m) s) \<le> m" by simp
  from assms show "sorted (map f (drop (length s - m) s))" by (rule sorted_drop_map)
  show "mset (take (length s - m) s) + mset (drop (length s - m) s) = mset s"
    by (simp add: union_code)
  from assms have "sorted (map f (take (length s - m) s @ drop (length s - m) s))" by simp
  then show "\<forall>x \<in> set (take (length s - m) s). \<forall>y \<in> set (drop (length s - m) s). f x \<le> f y"
    unfolding map_append sorted_append by simp
qed

lemma sorted_map_upt:
  "(\<And>i j. i < j \<Longrightarrow> f i \<le> f j) \<Longrightarrow> sorted (map f [m..<n])"
  unfolding sorted_wrt_map by (rule sorted_wrt_mono_rel [OF _ sorted_wrt_upt]) simp

lemma fold_same_result:
  "f r [r] = [r] \<Longrightarrow> fold f (replicate n r) [r] = [r]"
  by (induction n) simp_all

lemma numberOrMissing_iff: "numberOrMissing ts \<longleftrightarrow> numberOperand ts \<noteq> None"
  by (induction ts rule: numberOperand.induct) simp_all

lemma sortByTimestamp_numeric:
  "list_all (\<lambda>r. numberOperand (timestamp r) \<noteq> None) xs \<Longrightarrow>
     sortByTimestamp coercedSort xs = sort_key (\<lambda>r. the (numberOperand (timestamp r))) xs"
  by (simp add: sortByTimestamp_def)

lemma notNewer_iff:
  "numberOperand (timestamp x) \<noteq> None \<Longrightarrow> numberOperand (timestamp y) \<noteq> None \<Longrightarrow>
     notNewer x y \<longleftrightarrow> the (numberOperand (timestamp x)) \<le> the (numberOperand (timestamp y))"
  by (auto simp: notNewer_def)

lemma sorted_notNewer:
  assumes "list_all (\<lambda>r. numberOperand (timestamp r) \<noteq> None) xs"
    and "sorted (map (\<lambda>r. the (numberOperand (timestamp r))) xs)"
  shows "sorted_wrt notNewer xs"
proof -
  from assms(2) have "sorted_wrt (\<lambda>x y. the (numberOperand (timestamp x)) \<le> the (numberOperand (timestamp y))) xs"
    by (simp add: sorted_wrt_map)
  then show ?thesis
  proof (rule sorted_wrt_mono_rel [rotated])
    fix x y assume "x \<in> set xs" "y \<in> set xs"
      and "the (numberOperand (timestamp x)) \<le> the (numberOperand (timestamp y))"
    with assms(1) show "notNewer x y" by (simp add: list_all_iff notNewer_iff)
  qed
qed

lemma handleAddResult_unfold:
  "handleAddResult coercedSort now r h =
     drop (length (sortByTimestamp coercedSort
                     (filter (\<lambda>x. timestamp x \<noteq> Some (JNum (case timestamp r of Some (JNum t) \<Rightarrow> t | _ \<Rightarrow> now))) h
                      @ [r\<lparr>timestamp := Some (JNum (case timestamp r of Some (JNum t) \<Rightarrow> t | _ \<Rightarrow> now))\<rparr>])) - 50)
       (sortByTimestamp coercedSort
          (filter (\<lambda>x. timestamp x \<noteq> Some (JNum (case timestamp r of Some (JNum t) \<Rightarrow> t | _ \<Rightarrow> now))) h
           @ [r\<lparr>timestamp := Some (JNum (case timestamp r of Some (JNum t) \<Rightarrow> t | _ \<Rightarrow> now))\<rparr>]))"
  by (simp add: handleAddResult_def Let_def)

lemma handleAddResult_numeric:
  assumes "timestamp r = Some (JNum t)"
    and "list_all (\<lambda>x. numberOperand (timestamp x) \<noteq> None) h"
  shows "handleAddResult coercedSort now r h =
           drop (Suc (length (filter (\<lambda>x. timestamp x \<noteq> Some (JNum t)) h)) - 50)
             (sort_key (\<lambda>r. the (numberOperand (timestamp r)))
                (filter (\<lambda>x. timestamp x \<noteq> Some (JNum t)) h @ [r]))"
proof -
  from assms(1) have eq: "r\<lparr>timestamp := Some (JNum t)\<rparr> = r" by simp
  from assms have "list_all (\<lambda>x. numberOperand (timestamp x) \<noteq> None)
                     (filter (\<lambda>x. timestamp x \<noteq> Some (JNum t)) h @ [r])"
    by (simp add: list_all_iff)
  then have "sortByTimestamp coercedSort (filter (\<lambda>x. timestamp x \<noteq> Some (JNum t)) h @ [r])
             = sort_key (\<lambda>r. the (numberOperand (timestamp r)))
                 (filter (\<lambda>x. timestamp x \<noteq> Some (JNum t)) h @ [r])"
    by (rule sortByTimestamp_numeric)
  then show ?thesis
    by (simp add: handleAddResult_unfold assms(1) eq)
qed

lemma fold_handleAddResult:
  assumes "list_all (\<lambda>x. \<exists>t. timestamp x = Some (JNum t)) rs" and "distinct (map timestamp rs)"
  shows "fold (handleAddResult coercedSort now) rs []
           = drop (length rs - 50) (sort_key (\<lambda>r. the (numberOperand (timestamp r))) rs)"
  using assms
proof (induction rs rule: rev_induct)
  case Nil
  then show ?case by simp
next
  case (snoc r rs)
  let ?k = "\<lambda>r. the (numberOperand (timestamp r))"
  let ?S = "sort_key ?k rs"
  let ?H = "drop (length rs - 50) ?S"
  from snoc.prems have num: "list_all (\<lambda>x. \<exists>t. timestamp x = Some (JNum t)) rs"
    and d: "distinct (map timestamp rs)"
    and fresh: "timestamp r \<notin> timestamp ` set rs" and rn: "\<exists>t. timestamp r = Some (JNum t)"
    by auto
  from rn obtain t where t: "timestamp r = Some (JNum t)" by auto
  have H: "fold (handleAddResult coercedSort now) rs [] = ?H" by (rule snoc.IH [OF num d])
  have sub: "set ?H \<subseteq> set rs" using set_drop_subset [of "length rs - 50" ?S] by simp
  have "\<forall>x \<in> set ?H. timestamp x \<noteq> Some (JNum t)"
  proof
    fix x assume "x \<in> set ?H"
    with sub have "x \<in> set rs" by blast
    with fresh t show "timestamp x \<noteq> Some (JNum t)" by force
  qed
  then have keep: "filter (\<lambda>x. timestamp x \<noteq> Some (JNum t)) ?H = ?H"
    by (simp add: filter_id_conv)
  have numH: "list_all (\<lambda>x. numberOperand (timestamp x) \<noteq> None) ?H"
    unfolding list_all_iff
  proof
    fix x assume "x \<in> set ?H"
    with sub have "x \<in> set rs" by blast
    with num obtain s where "timestamp x = Some (JNum s)" by (auto simp: list_all_iff)
    then show "numberOperand (timestamp x) \<noteq> None" by simp
  qed
  have kfresh: "?k r \<notin> ?k ` set rs"
  proof
    assume "?k r \<in> ?k ` set rs"
    then obtain x where x: "x \<in> set rs" "?k r = ?k x" by auto
    with num obtain s where "timestamp x = Some (JNum s)" by (auto simp: list_all_iff)
    with x t have "timestamp r = timestamp x" by simp
    with x fresh show False by auto
  qed
  with sub have kfreshH: "?k r \<notin> ?k ` set ?H" by auto
  have sS: "sorted (map ?k ?S)" by simp
  then have sH: "sorted (map ?k ?H)" by (rule sorted_drop_map)
  have "fold (handleAddResult coercedSort now) (rs @ [r]) [] = handleAddResult coercedSort now r ?H"
    by (simp add: H)
  also have "\<dots> = drop (Suc (length ?H) - 50) (sort_key ?k (?H @ [r]))"
    by (simp add: handleAddResult_numeric [OF t numH] keep)
  also have "sort_key ?k (?H @ [r]) = insort_key ?k r ?H"
    using sort_key_snoc [OF kfreshH] sH by (simp add: sort_key_id_if_sorted)
  also have "drop (Suc (length ?H) - 50) (insort_key ?k r ?H) = drop (Suc (length ?S) - 50) (insort_key ?k r ?S)"
    using last_m_insort_drop [OF sS, of 50 r] by simp
  also have "insort_key ?k r ?S = sort_key ?k (rs @ [r])"
    by (rule sort_key_snoc [OF kfresh, symmetric])
  finally show ?case by simp
qed

lemma numbers_numeric:
  "list_all (\<lambda>x. \<exists>t. timestamp x = Some (JNum t)) rs \<Longrightarrow>
     list_all (\<lambda>x. numberOperand (timestamp x) \<noteq> None) rs"
  by (auto simp: list_all_iff)

text \<open>
  C8, amended. Appending a result gives it the timestamp of the clock unless its own is a
  number, removes the entries with that same timestamp, appends it, sorts and keeps the
  last fifty: the new history has at most fifty entries. When every timestamp of the
  stored history is a number or missing, the new history is sorted ascending by timestamp
  (a missing one counting as 0) and no evicted entry is newer than a kept one. Appending,
  to an empty history, results whose timestamps are numbers and pairwise different yields
  the (at most fifty) newest of them in ascending order; for fifty-five such results,
  exactly fifty are stored and the five oldest are evicted.
\<close>

theorem handleAddResult_history:
  "(let r1 = r\<lparr>timestamp := Some (JNum (case timestamp r of Some (JNum t) \<Rightarrow> t | _ \<Rightarrow> now))\<rparr>;
        others = filter (\<lambda>x. timestamp x \<noteq> timestamp r1) h;
        sorted_all = sortByTimestamp coercedSort (others @ [r1]);
        h1 = handleAddResult coercedSort now r h
    in length h1 \<le> 50
       \<and> h1 = drop (length sorted_all - 50) sorted_all
       \<and> (numericHistory h \<longrightarrow>
             sorted_wrt notNewer h1
             \<and> mset (take (length sorted_all - 50) sorted_all) + mset h1 = mset others + {#r1#}
             \<and> (\<forall>x \<in> set (take (length sorted_all - 50) sorted_all). \<forall>y \<in> set h1. notNewer x y)))
   \<and> (list_all (\<lambda>x. \<exists>t. timestamp x = Some (JNum t)) rs \<and> distinct (map timestamp rs) \<longrightarrow>
         sorted_wrt notNewer (sortByTimestamp coercedSort rs)
         \<and> mset (sortByTimestamp coercedSort rs) = mset rs
         \<and> fold (handleAddResult coercedSort now) rs []
             = drop (length rs - 50) (sortByTimestamp coercedSort rs)
         \<and> (length rs = 55 \<longrightarrow>
               length (fold (handleAddResult coercedSort now) rs []) = 50
               \<and> fold (handleAddResult coercedSort now) rs [] = drop 5 (sortByTimestamp coercedSort rs)))"
proof -
  let ?k = "\<lambda>r. the (numberOperand (timestamp r))"
  let ?r1 = "r\<lparr>timestamp := Some (JNum (case timestamp r of Some (JNum t) \<Rightarrow> t | _ \<Rightarrow> now))\<rparr>"
  let ?others = "filter (\<lambda>x. timestamp x \<noteq> timestamp ?r1) h"
  let ?s = "sortByTimestamp coercedSort (?others @ [?r1])"
  let ?h1 = "handleAddResult coercedSort now r h"
  have h1: "?h1 = drop (length ?s - 50) ?s"
    using handleAddResult_unfold [of coercedSort now r h] by simp
  have len: "length ?h1 \<le> 50" unfolding h1 by simp
  have cond: "numericHistory h \<longrightarrow>
             sorted_wrt notNewer ?h1
             \<and> mset (take (length ?s - 50) ?s) + mset ?h1 = mset ?others + {#?r1#}
             \<and> (\<forall>x \<in> set (take (length ?s - 50) ?s). \<forall>y \<in> set ?h1. notNewer x y)"
  proof
    assume "numericHistory h"
    then have nh: "list_all (\<lambda>x. numberOperand (timestamp x) \<noteq> None) h"
      by (simp add: numericHistory_def numberOrMissing_iff)
    then have nall: "list_all (\<lambda>x. numberOperand (timestamp x) \<noteq> None) (?others @ [?r1])"
      by (simp add: list_all_iff)
    then have sk: "?s = sort_key ?k (?others @ [?r1])" by (rule sortByTimestamp_numeric)
    have s: "sorted (map ?k ?s)" unfolding sk by simp
    have ms: "mset ?s = mset ?others + {#?r1#}" unfolding sk by simp
    have "set ?s = set (?others @ [?r1])" unfolding sk by simp
    with nall have ns: "list_all (\<lambda>x. numberOperand (timestamp x) \<noteq> None) ?s"
      by (simp only: list_all_iff)
    note p = last_part_of_sorted [OF s, of 50]
    have nd: "list_all (\<lambda>x. numberOperand (timestamp x) \<noteq> None) (drop (length ?s - 50) ?s)"
      using ns set_drop_subset [of "length ?s - 50" ?s] by (auto simp only: list_all_iff)
    have nt: "\<forall>x \<in> set (take (length ?s - 50) ?s). numberOperand (timestamp x) \<noteq> None"
      using ns set_take_subset [of "length ?s - 50" ?s] by (auto simp only: list_all_iff)
    have a: "sorted_wrt notNewer ?h1" unfolding h1 by (rule sorted_notNewer [OF nd p(2)])
    have b: "mset (take (length ?s - 50) ?s) + mset ?h1 = mset ?others + {#?r1#}"
      unfolding h1 using p(3) ms by simp
    have c: "\<forall>x \<in> set (take (length ?s - 50) ?s). \<forall>y \<in> set ?h1. notNewer x y"
      unfolding h1
    proof (intro ballI)
      fix x y assume x: "x \<in> set (take (length ?s - 50) ?s)" and y: "y \<in> set (drop (length ?s - 50) ?s)"
      from p(4) x y have "?k x \<le> ?k y" by blast
      moreover from nt x have "numberOperand (timestamp x) \<noteq> None" by blast
      moreover from nd y have "numberOperand (timestamp y) \<noteq> None" unfolding list_all_iff by blast
      ultimately show "notNewer x y" by (simp add: notNewer_iff)
    qed
    from a b c show "sorted_wrt notNewer ?h1
             \<and> mset (take (length ?s - 50) ?s) + mset ?h1 = mset ?others + {#?r1#}
             \<and> (\<forall>x \<in> set (take (length ?s - 50) ?s). \<forall>y \<in> set ?h1. notNewer x y)"
      by (intro conjI)
  qed
  have first: "let r1 = ?r1; others = filter (\<lambda>x. timestamp x \<noteq> timestamp r1) h;
        sorted_all = sortByTimestamp coercedSort (others @ [r1]);
        h1 = handleAddResult coercedSort now r h
    in length h1 \<le> 50
       \<and> h1 = drop (length sorted_all - 50) sorted_all
       \<and> (numericHistory h \<longrightarrow>
             sorted_wrt notNewer h1
             \<and> mset (take (length sorted_all - 50) sorted_all) + mset h1 = mset others + {#r1#}
             \<and> (\<forall>x \<in> set (take (length sorted_all - 50) sorted_all). \<forall>y \<in> set h1. notNewer x y))"
    unfolding Let_def using len h1 cond by (intro conjI)
  have second: "list_all (\<lambda>x. \<exists>t. timestamp x = Some (JNum t)) rs \<and> distinct (map timestamp rs) \<longrightarrow>
         sorted_wrt notNewer (sortByTimestamp coercedSort rs)
         \<and> mset (sortByTimestamp coercedSort rs) = mset rs
         \<and> fold (handleAddResult coercedSort now) rs []
             = drop (length rs - 50) (sortByTimestamp coercedSort rs)
         \<and> (length rs = 55 \<longrightarrow>
               length (fold (handleAddResult coercedSort now) rs []) = 50
               \<and> fold (handleAddResult coercedSort now) rs [] = drop 5 (sortByTimestamp coercedSort rs))"
  proof (intro impI, elim conjE)
    assume a: "list_all (\<lambda>x. \<exists>t. timestamp x = Some (JNum t)) rs" "distinct (map timestamp rs)"
    from a(1) have n: "list_all (\<lambda>x. numberOperand (timestamp x) \<noteq> None) rs" by (rule numbers_numeric)
    then have sk: "sortByTimestamp coercedSort rs = sort_key ?k rs" by (rule sortByTimestamp_numeric)
    have "set (sort_key ?k rs) = set rs" by simp
    with n have ns: "list_all (\<lambda>x. numberOperand (timestamp x) \<noteq> None) (sort_key ?k rs)"
      by (simp only: list_all_iff)
    have so: "sorted_wrt notNewer (sortByTimestamp coercedSort rs)"
      unfolding sk by (rule sorted_notNewer [OF ns]) simp
    have ms: "mset (sortByTimestamp coercedSort rs) = mset rs" unfolding sk by simp
    have f: "fold (handleAddResult coercedSort now) rs []
               = drop (length rs - 50) (sortByTimestamp coercedSort rs)"
      unfolding sk by (rule fold_handleAddResult [OF a])
    have l: "length (sortByTimestamp coercedSort rs) = length rs" unfolding sk by simp
    from so ms f l show "sorted_wrt notNewer (sortByTimestamp coercedSort rs)
         \<and> mset (sortByTimestamp coercedSort rs) = mset rs
         \<and> fold (handleAddResult coercedSort now) rs []
             = drop (length rs - 50) (sortByTimestamp coercedSort rs)
         \<and> (length rs = 55 \<longrightarrow>
               length (fold (handleAddResult coercedSort now) rs []) = 50
               \<and> fold (handleAddResult coercedSort now) rs [] = drop 5 (sortByTimestamp coercedSort rs))"
      by simp
  qed
  from first second show ?thesis by (rule conjI)
qed

theorem handleAddResult_history_witness:
  "length demoResults = 55
   \<and> length (fold (handleAddResult (\<lambda>xs. xs) 0) demoResults []) = 50
   \<and> fold (handleAddResult (\<lambda>xs. xs) 0) demoResults []
       = map (\<lambda>i. demoResult\<lparr>timestamp := Some (JNum (1000 + int i))\<rparr>) [5..<55]"
proof -
  let ?k = "\<lambda>r. the (numberOperand (timestamp r))"
  have n: "list_all (\<lambda>x. \<exists>t. timestamp x = Some (JNum t)) demoResults"
    by (simp add: demoResults_def list_all_iff)
  have d: "distinct (map timestamp demoResults)"
    by (simp add: demoResults_def distinct_map comp_def inj_on_def)
  have l: "length demoResults = 55" by (simp add: demoResults_def)
  have "map ?k demoResults = map (\<lambda>i. 1000 + int i) [0..<55]"
    by (simp add: demoResults_def comp_def)
  then have "sorted (map ?k demoResults)" by (simp only: sorted_map_upt)
  then have "sort_key ?k demoResults = demoResults"
    by (rule sort_key_id_if_sorted)
  with sortByTimestamp_numeric [OF numbers_numeric [OF n], of "\<lambda>xs. xs"]
  have s: "sortByTimestamp (\<lambda>xs. xs) demoResults = demoResults" by simp
  have dr: "drop 5 demoResults = map (\<lambda>i. demoResult\<lparr>timestamp := Some (JNum (1000 + int i))\<rparr>) [5..<55]"
    by (simp add: demoResults_def drop_map)
  from handleAddResult_history [where r = demoResult and now = 0 and h = "[]" and rs = demoResults
      and coercedSort = "\<lambda>xs. xs"] n d l
  have "length (fold (handleAddResult (\<lambda>xs. xs) 0) demoResults []) = 50
        \<and> fold (handleAddResult (\<lambda>xs. xs) 0) demoResults []
            = drop 5 (sortByTimestamp (\<lambda>xs. xs) demoResults)"
    by blast
  with l s dr show ?thesis by simp
qed

text \<open>
  The claim C8 as stated fails when results share a timestamp: appending the same result
  fifty-five times leaves one entry.
\<close>

theorem handleAddResult_duplicates_counterexample:
  "length (replicate 55 demoResult) = 55
   \<and> fold (handleAddResult (\<lambda>xs. xs) 0) (replicate 55 demoResult) [] = [demoResult]
   \<and> length (fold (handleAddResult (\<lambda>xs. xs) 0) (replicate 55 demoResult) []) \<noteq> 50"
proof -
  have t: "timestamp demoResult = Some (JNum 1000)" by (simp add: demoResult_def)
  have a: "handleAddResult (\<lambda>xs. xs) 0 demoResult [] = [demoResult]"
    by (simp add: handleAddResult_numeric [OF t])
  have b: "handleAddResult (\<lambda>xs. xs) 0 demoResult [demoResult] = [demoResult]"
    by (simp add: handleAddResult_numeric [OF t] t)
  have "replicate 55 demoResult = demoResult # replicate 54 demoResult"
    by (simp add: replicate_Suc [symmetric] del: replicate_Suc)
  then have "fold (handleAddResult (\<lambda>xs. xs) 0) (replicate 55 demoResult) [] = [demoResult]"
    using fold_same_result [of "handleAddResult (\<lambda>xs. xs) 0" demoResult 54, OF b] by (simp add: a)
  then show ?thesis by simp
qed

text \<open>
  A stored entry whose timestamp is a string is kept by the filter and is an operand of
  the comparator: the order of the new history is then the one of the platform's sort
  under coercion.
\<close>

lemma handleAddResult_string_timestamp:
  assumes "x \<in> set h" and "timestamp x = Some (JStr s)"
  shows "handleAddResult coercedSort now r h =
           (let r1 = r\<lparr>timestamp := Some (JNum (case timestamp r of Some (JNum t) \<Rightarrow> t | _ \<Rightarrow> now))\<rparr>;
                others = filter (\<lambda>x. timestamp x \<noteq> timestamp r1) h
            in drop (length (coercedSort (others @ [r1])) - 50) (coercedSort (others @ [r1])))"
proof -
  let ?r1 = "r\<lparr>timestamp := Some (JNum (case timestamp r of Some (JNum t) \<Rightarrow> t | _ \<Rightarrow> now))\<rparr>"
  let ?others = "filter (\<lambda>x. timestamp x \<noteq> timestamp ?r1) h"
  from assms have "x \<in> set (?others @ [?r1])" by simp
  moreover from assms(2) have "numberOperand (timestamp x) = None" by simp
  ultimately have "\<not> list_all (\<lambda>r. numberOperand (timestamp r) \<noteq> None) (?others @ [?r1])"
    unfolding list_all_iff by blast
  then have "sortByTimestamp coercedSort (?others @ [?r1]) = coercedSort (?others @ [?r1])"
    by (simp only: sortByTimestamp_def if_False)
  then show ?thesis
    using handleAddResult_unfold [of coercedSort now r h] by (simp add: Let_def)
qed


subsection \<open>The shuffle utility\<close>

text \<open>
  \<^verbatim>\<open>Math.random()\<close> returns a number of the interval from 0 (inclusive) to 1 (exclusive).
  Then every random index is within the array, and the result of \<^verbatim>\<open>shuffleArray\<close> is a
  permutation of its argument, which is left as it was.
\<close>

lemma randomIndex_bound:
  assumes "0 \<le> r" and "r < 1"
  shows "nat \<lfloor>r * real (Suc k)\<rfloor> \<le> k"
proof -
  from assms have "r * real (Suc k) < real (Suc k)" by simp
  then have "\<lfloor>r * real (Suc k)\<rfloor> < int (Suc k)" by (simp add: floor_less_iff)
  then show ?thesis by simp
qed

lemma shuffleLoop_permutes:
  assumes "\<forall>n. 0 \<le> rnd n \<and> rnd n < 1"
  shows "k \<le> length xs \<Longrightarrow>
           mset (shuffleLoop rnd n k xs) = mset xs \<and> length (shuffleLoop rnd n k xs) = length xs"
proof (induction k arbitrary: n xs)
  case 0
  then show ?case by simp
next
  case (Suc k)
  let ?j = "nat \<lfloor>rnd n * real (Suc k)\<rfloor>"
  let ?ys = "xs[k := xs ! ?j, ?j := xs ! k]"
  from assms have "0 \<le> rnd n" and "rnd n < 1" by simp_all
  then have "?j \<le> k" by (rule randomIndex_bound)
  with Suc.prems have j: "?j < length xs" and k: "k < length xs" by simp_all
  then have m: "mset ?ys = mset xs" by (simp add: mset_swap)
  have l: "length ?ys = length xs" by simp
  from Suc.prems l have "k \<le> length ?ys" by simp
  from Suc.IH [OF this, of "Suc n"] m l show ?case by (simp add: Let_def)
qed

lemma shuffleArray_permutes:
  "\<forall>n. 0 \<le> rnd n \<and> rnd n < 1 \<Longrightarrow>
     mset (shuffleArray rnd xs) = mset xs \<and> length (shuffleArray rnd xs) = length xs"
  unfolding shuffleArray_def by (rule shuffleLoop_permutes) simp_all

lemma shuffleArray_example:
  "shuffleArray (\<lambda>n. 1 / 2) [1, 2, 3, 4 :: nat] = [1, 4, 2, 3]"
  by (simp add: shuffleArray_def numeral_eq_Suc Let_def)

text \<open>
  The shuffle utility on three elements: the six choices of the two random indices, which
  are equally likely, lead to the six orders, one each.
\<close>

lemma shuffleArray_three:
  "map (\<lambda>(i, j). shuffleArray (\<lambda>n. [real i / 3, real j / 2, 0] ! n) [a, b, c])
     [(0, 0), (0, 1), (1, 0), (1, 1), (2, 0), (2, 1)]
   = [[b, c, a], [c, b, a], [c, a, b], [a, c, b], [b, a, c], [a, b, c]]"
  by (simp add: shuffleArray_def numeral_eq_Suc Let_def)

subsection \<open>Starting a session\<close>

lemma resumeQuiz_index_upper:
  assumes "0 \<le> currentIndex st"
    and "currentQuestions (resumeQuiz courses config st now) \<noteq> []"
  shows "0 \<le> currentQuestionIndex (resumeQuiz courses config st now)
         \<and> currentQuestionIndex (resumeQuiz courses config st now)
             < int (length (currentQuestions (resumeQuiz courses config st now)))"
  using assms by (simp add: resumeQuiz_def Let_def)

text \<open>
  Counting: the lists of \<open>k\<close> signs are \<open>2 ^ k\<close>, a number that three does not divide, and
  three distinct elements have six orders.
\<close>

lemma two_power_mod_three: "(2::nat) ^ k mod 3 = 1 \<or> (2::nat) ^ k mod 3 = 2"
proof (induction k)
  case 0
  show ?case by simp
next
  case (Suc k)
  have "(2::nat) ^ Suc k mod 3 = (2 * (2 ^ k mod 3)) mod 3"
    by (simp add: mod_mult_right_eq)
  with Suc show ?case by auto
qed

lemma not_three_dvd_two_power: "\<not> (3::nat) dvd 2 ^ k"
proof
  assume "(3::nat) dvd 2 ^ k"
  then have "(2::nat) ^ k mod 3 = 0" by (simp add: mod_eq_0_iff_dvd)
  with two_power_mod_three [of k] show False by simp
qed

lemma card_bool_lists: "card {bs :: bool list. length bs = k} = 2 ^ k"
  using card_lists_length_eq [of "UNIV :: bool set" k] by simp

lemma finite_bool_lists: "finite {bs :: bool list. length bs = k}"
  using finite_lists_length_eq [of "UNIV :: bool set" k] by simp

lemma three_orders:
  assumes "mset p = mset [a, b, c]" and "distinct [a, b, c]"
  shows "p \<in> {[a, b, c], [a, c, b], [b, a, c], [b, c, a], [c, a, b], [c, b, a]}"
proof -
  from assms(1) have "length p = 3" by (metis length_Cons list.size(3) numeral_3_eq_3 size_mset)
  then obtain x y z where p: "p = [x, y, z]"
    by (metis length_0_conv length_Suc_conv numeral_3_eq_3)
  from assms(1) have s: "set p = {a, b, c}" by (metis list.simps(15) set_mset_mset empty_set)
  from assms have d: "distinct p" by (metis mset_eq_imp_distinct_iff)
  from s have m: "x \<in> {a, b, c}" "y \<in> {a, b, c}" "z \<in> {a, b, c}" unfolding p by auto
  from d have n: "x \<noteq> y" "x \<noteq> z" "y \<noteq> z" unfolding p by auto
  from m n show ?thesis unfolding p by auto
qed

lemma six_orders:
  assumes "distinct [a, b, c]"
  shows "card {[a, b, c], [a, c, b], [b, a, c], [b, c, a], [c, a, b], [c, b, a]} = 6"
    and "\<forall>p \<in> {[a, b, c], [a, c, b], [b, a, c], [b, c, a], [c, a, b], [c, b, a]}.
           mset p = mset [a, b, c]"
  using assms by auto

lemma balanced_classes:
  assumes X: "finite X" and P: "finite P" and F: "\<forall>x \<in> X. F x \<in> P"
    and c: "\<forall>p \<in> P. card {x \<in> X. F x = p} = c"
  shows "card X = card P * c"
proof -
  from F have "F ` X \<subseteq> P" by blast
  from sum.group [OF X P this, of "\<lambda>_. 1::nat"]
  have "(\<Sum>p \<in> P. card {x \<in> X. F x = p}) = card X" by simp
  moreover from c have "(\<Sum>p \<in> P. card {x \<in> X. F x = p}) = (\<Sum>p \<in> P. c)" by simp
  ultimately show ?thesis by simp
qed

text \<open>
  The comparator's result is positive for a draw below one half and negative for a draw
  above. A sort that decides on the signs of the results returns, for all draws of one
  sign pattern, the same order.
\<close>

lemma sgn_randomComparator:
  "r \<noteq> 1 / 2 \<Longrightarrow> sgn (randomComparator r) = (if r < 1 / 2 then 1 else - 1)"
  by (simp add: randomComparator_def sgn_if)

lemma signPattern_representative:
  "signPattern bs (map (\<lambda>b. if b then 1 / 4 else 3 / 4) bs)"
  unfolding signPattern_def by (induction bs) simp_all

lemma signPattern_signs:
  "signPattern bs draws \<Longrightarrow>
     map sgn (map randomComparator draws) = map (\<lambda>b. if b then 1 else - 1) bs"
  unfolding signPattern_def
  by (induction rule: list_all2_induct) (simp_all add: sgn_randomComparator)

lemma pattern_determines_order:
  assumes sign: "\<forall>results results'. map sgn results = map sgn results' \<longrightarrow>
                   engineSort results qs = engineSort results' qs"
  shows "(\<forall>draws. signPattern bs draws \<longrightarrow> engineSort (map randomComparator draws) qs = p)
         \<longleftrightarrow> engineSort (map randomComparator (map (\<lambda>b. if b then 1 / 4 else 3 / 4) bs)) qs = p"
proof
  assume "\<forall>draws. signPattern bs draws \<longrightarrow> engineSort (map randomComparator draws) qs = p"
  with signPattern_representative [of bs]
  show "engineSort (map randomComparator (map (\<lambda>b. if b then 1 / 4 else 3 / 4) bs)) qs = p"
    by blast
next
  assume r: "engineSort (map randomComparator (map (\<lambda>b. if b then 1 / 4 else 3 / 4) bs)) qs = p"
  show "\<forall>draws. signPattern bs draws \<longrightarrow> engineSort (map randomComparator draws) qs = p"
  proof (intro allI impI)
    fix draws assume d: "signPattern bs draws"
    have "map sgn (map randomComparator draws)
          = map sgn (map randomComparator (map (\<lambda>b. if b then 1 / 4 else 3 / 4) bs))"
      using signPattern_signs [OF d] signPattern_signs [OF signPattern_representative [of bs]]
      by simp
    with sign have "engineSort (map randomComparator draws) qs
          = engineSort (map randomComparator (map (\<lambda>b. if b then 1 / 4 else 3 / 4) bs)) qs"
      by blast
    with r show "engineSort (map randomComparator draws) qs = p" by simp
  qed
qed

lemma sort_not_uniform:
  assumes d: "distinct [a, b, c]"
    and perm: "\<forall>results. mset (engineSort results [a, b, c]) = mset [a, b, c]"
    and sign: "\<forall>results results'. map sgn results = map sgn results' \<longrightarrow>
           engineSort results [a, b, c] = engineSort results' [a, b, c]"
  shows "\<not> (\<exists>n. \<forall>p. mset p = mset [a, b, c] \<longrightarrow>
                  card {bs. length bs = k
                            \<and> (\<forall>draws. signPattern bs draws \<longrightarrow>
                                  engineSort (map randomComparator draws) [a, b, c] = p)}
                    = n)"
proof
  let ?P = "{[a, b, c], [a, c, b], [b, a, c], [b, c, a], [c, a, b], [c, b, a]}"
  let ?X = "{bs :: bool list. length bs = k}"
  let ?F = "\<lambda>bs. engineSort (map randomComparator (map (\<lambda>b. if b then 1 / 4 else 3 / 4) bs)) [a, b, c]"
  assume "\<exists>n. \<forall>p. mset p = mset [a, b, c] \<longrightarrow>
                  card {bs. length bs = k
                            \<and> (\<forall>draws. signPattern bs draws \<longrightarrow>
                                  engineSort (map randomComparator draws) [a, b, c] = p)}
                    = n"
  then obtain n where n: "\<And>p. mset p = mset [a, b, c] \<Longrightarrow>
                  card {bs. length bs = k
                            \<and> (\<forall>draws. signPattern bs draws \<longrightarrow>
                                  engineSort (map randomComparator draws) [a, b, c] = p)}
                    = n"
    by blast
  note pd = pattern_determines_order [where engineSort = engineSort and qs = "[a, b, c]", OF sign]
  have classes: "\<forall>p \<in> ?P. card {bs \<in> ?X. ?F bs = p} = n"
  proof
    fix p assume "p \<in> ?P"
    with six_orders(2) [OF d] have "mset p = mset [a, b, c]" by blast
    from n [OF this] show "card {bs \<in> ?X. ?F bs = p} = n"
      by (simp only: pd mem_Collect_eq)
  qed
  have range: "\<forall>bs \<in> ?X. ?F bs \<in> ?P"
  proof
    fix bs assume "bs \<in> ?X"
    from perm have "mset (?F bs) = mset [a, b, c]" by blast
    then show "?F bs \<in> ?P" using d by (rule three_orders)
  qed
  have fin: "finite ?P" by simp
  have "card ?X = card ?P * n"
    by (rule balanced_classes [OF finite_bool_lists fin range classes])
  then have "(2::nat) ^ k = 6 * n"
    by (simp only: card_bool_lists six_orders(1) [OF d])
  then have "(3::nat) dvd 2 ^ k" by simp
  with not_three_dvd_two_power show False by blast
qed

lemma initializeQuiz_questions:
  "currentQuestions (initializeQuiz engineSort draws courses config now)
     = engineSort (map randomComparator draws) (getQuizItems courses (courseId config) (topicId config))"
  by (simp add: initializeQuiz_def Let_def)

text \<open>
  C4. With three distinct questions, let the platform's sort return a permutation and
  decide on the signs of the comparator's results alone, as a comparison sort does. The
  new quiz then holds a permutation of the questions. Let \<open>k\<close> be any number, at least the
  number of calls of the comparator that the sort makes, say: each pattern of the signs
  of \<open>k\<close> results leads to one order, and the \<open>2 ^ k\<close> patterns are equally likely, each
  draw being below or above one half with equal chance. Yet for no \<open>k\<close> do the six orders
  each arise from the same number of patterns: whatever the sort of the platform, the
  order is not uniformly distributed, as the order of the Fisher-Yates shuffle of the
  claim is.
\<close>

theorem initializeQuiz_not_uniform:
  assumes "getQuizItems courses (courseId config) (topicId config) = [a, b, c]"
    and "distinct [a, b, c]"
    and "\<forall>results. mset (engineSort results [a, b, c]) = mset [a, b, c]"
    and "\<forall>results results'. map sgn results = map sgn results' \<longrightarrow>
           engineSort results [a, b, c] = engineSort results' [a, b, c]"
  shows "(\<forall>draws. mset (currentQuestions (initializeQuiz engineSort draws courses config now))
                     = mset [a, b, c])
         \<and> \<not> (\<exists>n. \<forall>p. mset p = mset [a, b, c] \<longrightarrow>
                  card {bs. length bs = k
                            \<and> (\<forall>draws. signPattern bs draws \<longrightarrow>
                                  currentQuestions (initializeQuiz engineSort draws courses config now) = p)}
                    = n)"
proof
  show "\<forall>draws. mset (currentQuestions (initializeQuiz engineSort draws courses config now))
                  = mset [a, b, c]"
    using assms(3) unfolding initializeQuiz_questions assms(1) by blast
next
  show "\<not> (\<exists>n. \<forall>p. mset p = mset [a, b, c] \<longrightarrow>
                  card {bs. length bs = k
                            \<and> (\<forall>draws. signPattern bs draws \<longrightarrow>
                                  currentQuestions (initializeQuiz engineSort draws courses config now) = p)}
                    = n)"
    unfolding initializeQuiz_questions assms(1)
    by (rule sort_not_uniform [where engineSort = engineSort, OF assms(2) assms(3) assms(4)])
qed

text \<open>The insertion sort of the examples returns a permutation and decides on the signs.\<close>

lemma insertByResults_mset: "mset (fst (insertByResults vs x ys)) = add_mset x (mset ys)"
  by (induction vs x ys rule: insertByResults.induct) (simp_all add: split_beta)

lemma insertionLoop_mset: "mset (insertionLoop vs sortedPart xs) = mset sortedPart + mset xs"
proof (induction xs arbitrary: vs sortedPart)
  case Nil
  show ?case by simp
next
  case (Cons x xs)
  have "mset (insertionLoop vs sortedPart (x # xs))
        = mset (fst (insertByResults vs x sortedPart)) + mset xs"
    by (simp add: split_beta Cons.IH)
  then show ?case by (simp add: insertByResults_mset)
qed

lemma insertionEngine_permutes: "mset (insertionEngine results xs) = mset xs"
  by (simp add: insertionEngine_def insertionLoop_mset)

lemma positive_sgn: "(0 < (v::real)) = (sgn v = 1)"
  by (simp add: sgn_if)

lemma insertionEngine_signs:
  assumes "map sgn results = map sgn results'"
  shows "insertionEngine results xs = insertionEngine results' xs"
proof -
  have "map (\<lambda>v. 0 < v) results = map (\<lambda>s. s = 1) (map sgn results)"
    by (simp add: positive_sgn)
  also have "\<dots> = map (\<lambda>s. s = 1) (map sgn results')"
    by (simp only: assms)
  also have "\<dots> = map (\<lambda>v. 0 < v) results'"
    by (simp add: positive_sgn)
  finally show ?thesis by (simp add: insertionEngine_def)
qed

lemma demo_questions:
  "getQuizItems demoCatalog (courseId fullConfig) (topicId fullConfig) = [demoQ1, demoQ2, demoQ3]"
  by (simp add: getQuizItems_def getCourseById_def demoCatalog_def demoCourse_def fullConfig_def)

lemma demo_distinct: "distinct [demoQ1, demoQ2, demoQ3]"
proof -
  have "item_id demoQ1 \<noteq> item_id demoQ2" "item_id demoQ1 \<noteq> item_id demoQ3"
    "item_id demoQ2 \<noteq> item_id demoQ3"
    by (simp_all add: demoQ1_def demoQ2_def demoQ3_def)
  then show ?thesis by auto
qed

theorem initializeQuiz_not_uniform_witness:
  "(\<forall>draws. mset (currentQuestions (initializeQuiz insertionEngine draws demoCatalog fullConfig 0))
                     = mset [demoQ1, demoQ2, demoQ3])
   \<and> \<not> (\<exists>n. \<forall>p. mset p = mset [demoQ1, demoQ2, demoQ3] \<longrightarrow>
            card {bs. length bs = 3
                      \<and> (\<forall>draws. signPattern bs draws \<longrightarrow>
                            currentQuestions (initializeQuiz insertionEngine draws demoCatalog fullConfig 0) = p)}
              = n)"
proof (rule initializeQuiz_not_uniform [OF demo_questions demo_distinct])
  show "\<forall>results. mset (insertionEngine results [demoQ1, demoQ2, demoQ3]) = mset [demoQ1, demoQ2, demoQ3]"
    by (simp only: insertionEngine_permutes) simp
  show "\<forall>results results'. map sgn results = map sgn results' \<longrightarrow>
          insertionEngine results [demoQ1, demoQ2, demoQ3] = insertionEngine results' [demoQ1, demoQ2, demoQ3]"
    by (intro allI impI) (rule insertionEngine_signs)
qed

text \<open>
  The insertion sort of the examples on three questions: of the eight sign patterns of
  three results, two lead to each of the two orders that begin with the last question,
  and one to each of the four others.
\<close>

lemma insertionEngine_three:
  "map (\<lambda>bs. insertionEngine (map randomComparator (map (\<lambda>b. if b then 1 / 4 else 3 / 4) bs)) [a, b, c])
     [[True, True, True], [True, True, False], [True, False, True], [True, False, False],
      [False, True, True], [False, True, False], [False, False, True], [False, False, False]]
   = [[a, b, c], [a, c, b], [c, a, b], [c, a, b], [b, a, c], [b, c, a], [c, b, a], [c, b, a]]"
  by (simp add: insertionEngine_def randomComparator_def)


end
